theory Spec2Isabelle
  imports Complex_Main "HOL-Library.Word"
begin

section \<open>Sample encoder (deepgram.ts, float32ToLinear16)\<close>

text \<open>
  An element of a \<open>Float32Array\<close>, read as a JavaScript number: a finite value, one of the
  two infinities, or NaN. A finite float32 is a dyadic rational with a 24-bit significand;
  the products \<open>s * 0x8000\<close> and \<open>s * 0x7fff\<close> of the source need at most 39 bits and are
  therefore exact in double precision, so finite values are carried as reals and
  multiplied exactly. Negative zero behaves as zero in every operation used here.
\<close>

datatype jsnum = Fin real | PosInf | NegInf | NaN

datatype js_error = RangeError | InvalidStateError | TypeError | SyntaxError

type_synonym byte = "8 word"

text \<open>\<open>Math.min(1, s)\<close> and \<open>Math.max(-1, s)\<close>: NaN is contagious.\<close>

fun math_min_1 :: "jsnum \<Rightarrow> jsnum" where
  "math_min_1 (Fin x) = Fin (min 1 x)"
| "math_min_1 PosInf = Fin 1"
| "math_min_1 NegInf = NegInf"
| "math_min_1 NaN = NaN"

fun math_max_m1 :: "jsnum \<Rightarrow> jsnum" where
  "math_max_m1 (Fin x) = Fin (max (- 1) x)"
| "math_max_m1 PosInf = PosInf"
| "math_max_m1 NegInf = Fin (- 1)"
| "math_max_m1 NaN = NaN"

text \<open>\<open>s < 0\<close>: false for NaN.\<close>

fun lt_zero :: "jsnum \<Rightarrow> bool" where
  "lt_zero (Fin x) = (x < 0)"
| "lt_zero NegInf = True"
| "lt_zero PosInf = False"
| "lt_zero NaN = False"

text \<open>\<open>s * k\<close> for a positive finite constant \<open>k\<close>.\<close>

fun times_const :: "jsnum \<Rightarrow> real \<Rightarrow> jsnum" where
  "times_const (Fin x) k = Fin (x * k)"
| "times_const PosInf k = PosInf"
| "times_const NegInf k = NegInf"
| "times_const NaN k = NaN"

text \<open>
  The conversion \<open>ToInt16\<close> that \<open>DataView.setInt16\<close> applies to its value argument:
  NaN and the infinities become 0, a finite number is truncated toward zero and
  reduced modulo \<open>2^16\<close>.
\<close>

definition js_trunc :: "real \<Rightarrow> int" where
  "js_trunc x = (if x < 0 then \<lceil>x\<rceil> else \<lfloor>x\<rfloor>)"

fun to_int16 :: "jsnum \<Rightarrow> 16 word" where
  "to_int16 (Fin x) = word_of_int (js_trunc x)"
| "to_int16 PosInf = 0"
| "to_int16 NegInf = 0"
| "to_int16 NaN = 0"

text \<open>
  \<open>view.setInt16(off, v, true)\<close>: the low byte at \<open>off\<close>, the high byte at \<open>off + 1\<close>;
  a RangeError when the two bytes do not fit in the buffer.
\<close>

definition setInt16 :: "nat \<Rightarrow> jsnum \<Rightarrow> byte list \<Rightarrow> js_error + byte list" where
  "setInt16 off v buf =
     (if off + 2 \<le> length buf
      then (let w = to_int16 v
            in Inr (buf[off := ucast w, off + 1 := ucast (drop_bit 8 w)]))
      else Inl RangeError)"

text \<open>The body of the loop for one sample: clamp, scale, and the value handed to setInt16.\<close>

definition clamp :: "jsnum \<Rightarrow> jsnum" where
  "clamp s = math_max_m1 (math_min_1 s)"

definition scale :: "jsnum \<Rightarrow> jsnum" where
  "scale s = (if lt_zero s then times_const s 32768 else times_const s 32767)"

text \<open>The \<open>for\<close> loop, from index \<open>i\<close> on.\<close>

function encode_loop :: "nat \<Rightarrow> jsnum list \<Rightarrow> byte list \<Rightarrow> js_error + byte list" where
  "encode_loop i chunk buf =
     (if i < length chunk
      then (case setInt16 (i * 2) (scale (clamp (chunk ! i))) buf of
              Inl e \<Rightarrow> Inl e
            | Inr buf' \<Rightarrow> encode_loop (i + 1) chunk buf')
      else Inr buf)"
  by pat_completeness auto
termination
  by (relation "measure (\<lambda>(i, chunk, buf). length chunk - i)") auto

declare encode_loop.simps [simp del]

definition float32ToLinear16 :: "jsnum list \<Rightarrow> js_error + byte list" where
  "float32ToLinear16 chunk = encode_loop 0 chunk (replicate (length chunk * 2) 0)"

text \<open>
  Reading the buffer back: \<open>getInt16(off, true)\<close>, the little-endian signed 16-bit value
  at a byte offset.
\<close>

definition getInt16 :: "byte list \<Rightarrow> nat \<Rightarrow> int" where
  "getInt16 buf off =
     sint (or (push_bit 8 (ucast (buf ! (off + 1)) :: 16 word)) (ucast (buf ! off) :: 16 word))"

text \<open>
  The clamped and scaled value of a sample that is a number, as a real: clamping to
  \<open>[-1, 1]\<close>, then the factor 32768 below zero and 32767 from zero on.
\<close>

definition clamp_real :: "real \<Rightarrow> real" where
  "clamp_real x = max (- 1) (min 1 x)"

text \<open>The numeric value of a sample other than NaN, after clamping.\<close>

fun clamped_value :: "jsnum \<Rightarrow> real" where
  "clamped_value (Fin x) = clamp_real x"
| "clamped_value PosInf = 1"
| "clamped_value NegInf = - 1"
| "clamped_value NaN = 0"

definition scaled_value :: "jsnum \<Rightarrow> real" where
  "scaled_value s =
     (if clamped_value s < 0 then clamped_value s * 32768 else clamped_value s * 32767)"

text \<open>
  The reverse of the encoder's scaling (int16 to float), used by the round-trip property:
  a negative value is divided by 32768, a non-negative one by 32767.
\<close>

definition decode16 :: "int \<Rightarrow> real" where
  "decode16 v = (if v < 0 then real_of_int v / 32768 else real_of_int v / 32767)"

text \<open>The two bytes the loop writes for one sample.\<close>

definition encode_sample :: "jsnum \<Rightarrow> byte list" where
  "encode_sample s = (let w = to_int16 (scale (clamp s)) in [ucast w, ucast (drop_bit 8 w)])"

section \<open>Inbound messages (deepgram.ts, ws.onmessage)\<close>

text \<open>
  A JavaScript string is a list of its code units; HOL's \<open>char\<close> carries the code units
  below 256. A parsed JSON value: a number is kept in the form in which
  \<open>Number.prototype.toString\<close> prints it (only its truthiness and its printed form are
  ever used), an object as its table of own properties.
\<close>

datatype json =
    JNull
  | JBool bool
  | JNum string
  | JStr string
  | JArr "json list"
  | JObj "(string \<times> json) list"

text \<open>
  What \<open>JSON.parse(event.data)\<close> makes of an inbound frame: it throws a SyntaxError, or
  it returns a value.
\<close>

datatype inbound = Malformed | Message json

text \<open>
  Property access \<open>v.name\<close> on a value other than \<open>null\<close>; \<open>None\<close> is \<open>undefined\<close>.
  None of the names read by the handler (\<open>type\<close>, \<open>channel\<close>, \<open>alternatives\<close>,
  \<open>transcript\<close>) exists on a primitive, an array or a prototype.
\<close>

fun get_prop :: "json \<Rightarrow> string \<Rightarrow> json option" where
  "get_prop (JObj kvs) name = map_of kvs name"
| "get_prop v name = None"

text \<open>Element access \<open>v[0]\<close> on a value other than \<open>null\<close>.\<close>

fun index0 :: "json \<Rightarrow> json option" where
  "index0 (JArr xs) = (case xs of [] \<Rightarrow> None | x # _ \<Rightarrow> Some x)"
| "index0 (JStr s) = (case s of [] \<Rightarrow> None | c # _ \<Rightarrow> Some (JStr [c]))"
| "index0 (JObj kvs) = map_of kvs ''0''"
| "index0 v = None"

text \<open>Optional chaining \<open>a?.b\<close>: \<open>undefined\<close> when \<open>a\<close> is \<open>null\<close> or \<open>undefined\<close>.\<close>

fun opt_chain :: "json option \<Rightarrow> (json \<Rightarrow> json option) \<Rightarrow> json option" where
  "opt_chain None f = None"
| "opt_chain (Some JNull) f = None"
| "opt_chain (Some v) f = f v"

fun truthy :: "json option \<Rightarrow> bool" where
  "truthy None = False"
| "truthy (Some JNull) = False"
| "truthy (Some (JBool b)) = b"
| "truthy (Some (JNum n)) = (n \<noteq> ''0'')"
| "truthy (Some (JStr s)) = (s \<noteq> [])"
| "truthy (Some (JArr xs)) = True"
| "truthy (Some (JObj kvs)) = True"

text \<open>
  \<open>v.toString()\<close>. An array joins the strings of its elements with commas, \<open>null\<close>
  elements printing as the empty string. An object prints as \<open>[object Object]\<close>, unless
  it has an own property \<open>toString\<close>, which after \<open>JSON.parse\<close> is never a function:
  calling it is a TypeError.
\<close>

fun js_toString :: "json \<Rightarrow> js_error + string"
  and js_join :: "json list \<Rightarrow> js_error + string" where
  "js_toString JNull = Inr ''null''"
| "js_toString (JBool b) = Inr (if b then ''true'' else ''false'')"
| "js_toString (JNum n) = Inr n"
| "js_toString (JStr s) = Inr s"
| "js_toString (JArr xs) = js_join xs"
| "js_toString (JObj kvs) =
     (if map_of kvs ''toString'' = None then Inr ''[object Object]'' else Inl TypeError)"
| "js_join [] = Inr []"
| "js_join (x # xs) =
     (case (case x of JNull \<Rightarrow> Inr [] | _ \<Rightarrow> js_toString x) of
        Inl e \<Rightarrow> Inl e
      | Inr s \<Rightarrow>
          (case xs of
             [] \<Rightarrow> Inr s
           | _ # _ \<Rightarrow> (case js_join xs of Inl e \<Rightarrow> Inl e | Inr r \<Rightarrow> Inr (s @ '','' @ r))))"

text \<open>
  \<open>toLowerCase\<close> on code units below 256: the letters A to Z and the Latin-1 capitals
  (0xC0 to 0xDE without the multiplication sign 0xD7) move up by 0x20.
\<close>

definition lower_char :: "char \<Rightarrow> char" where
  "lower_char c =
     (let n = (of_char c :: nat)
      in if (65 \<le> n \<and> n \<le> 90) \<or> (192 \<le> n \<and> n \<le> 222 \<and> n \<noteq> 215)
         then char_of (n + 32) else c)"

definition toLowerCase :: "string \<Rightarrow> string" where
  "toLowerCase s = map lower_char s"

text \<open>
  \<open>trim\<close>: the white space and line terminators below 256 are tab, line feed, vertical
  tab, form feed, carriage return, space and the no-break space.
\<close>

definition is_space :: "char \<Rightarrow> bool" where
  "is_space c = ((of_char c :: nat) \<in> {9, 10, 11, 12, 13, 32, 160})"

definition trim :: "string \<Rightarrow> string" where
  "trim s = rev (dropWhile is_space (rev (dropWhile is_space s)))"

text \<open>
  \<open>(data.type || "").toString()\<close>: reading a property of \<open>null\<close> is a TypeError; a
  missing or falsy \<open>type\<close> gives the empty string.
\<close>

definition message_type :: "json \<Rightarrow> js_error + string" where
  "message_type data =
     (case data of
        JNull \<Rightarrow> Inl TypeError
      | _ \<Rightarrow> (case get_prop data ''type'' of
                None \<Rightarrow> Inr []
              | Some v \<Rightarrow> (if truthy (Some v) then js_toString v else Inr [])))"

text \<open>\<open>data.channel?.alternatives?.[0]\<close> and then \<open>alt?.transcript\<close>.\<close>

definition first_transcript :: "json \<Rightarrow> json option" where
  "first_transcript data =
     (let alt = opt_chain (opt_chain (get_prop data ''channel'') (\<lambda>c. get_prop c ''alternatives'')) index0
      in opt_chain alt (\<lambda>a. get_prop a ''transcript''))"

text \<open>
  The body of the \<open>try\<close> block after parsing. The result is the argument of the call of
  \<open>onTranscript\<close>, if it is called, or the exception the block raises: \<open>trim\<close> exists on
  strings only, so a truthy transcript of another kind is a TypeError.
\<close>

definition handle_message :: "json \<Rightarrow> js_error + string option" where
  "handle_message data =
     (case message_type data of
        Inl e \<Rightarrow> Inl e
      | Inr type \<Rightarrow>
          (if toLowerCase type = ''results''
           then (let transcript = first_transcript data
                 in if truthy transcript
                    then (case transcript of
                            Some (JStr t) \<Rightarrow> (if length (trim t) > 0 then Inr (Some t) else Inr None)
                          | _ \<Rightarrow> Inl TypeError)
                    else Inr None)
           else Inr None))"

text \<open>
  What the program does that its environment can observe, in order of occurrence.
  \<open>OnTranscript\<close> and \<open>OnError\<close> are the calls of the two sinks given to the client;
  what the sinks then show, the texts of the \<open>UiController\<close> and the calls of
  \<open>console.log\<close> are left out.
\<close>

datatype frame = Binary "byte list" | TextFrame string

datatype status_kind = Idle | Listening | Error

datatype action =
    WsCreated nat string "string list"
  | Transmit nat frame
  | CloseCalled nat
  | OnTranscript string
  | OnError string
  | ConsoleError string
  | GetUserMedia
  | ProcessorDisconnected nat
  | SourceDisconnected nat
  | TracksStopped nat
  | ContextClosed
  | AudioStopReturned
  | SetStatus status_kind
  | SetError
  | ClearError

text \<open>The handler: every exception of the block is caught and logged.\<close>

definition onmessage :: "inbound \<Rightarrow> action list" where
  "onmessage ev =
     (case ev of
        Malformed \<Rightarrow> [ConsoleError ''Failed to parse Deepgram message'']
      | Message data \<Rightarrow>
          (case handle_message data of
             Inl e \<Rightarrow> [ConsoleError ''Failed to parse Deepgram message'']
           | Inr None \<Rightarrow> []
           | Inr (Some t) \<Rightarrow> [OnTranscript t]))"

section \<open>The browser objects\<close>

datatype ready_state = CONNECTING | OPEN | CLOSING | CLOSED

record websocket =
  ws_url :: string
  ws_protocols :: "string list"
  readyState :: ready_state

text \<open>
  An \<open>AudioContext\<close> with the sample rate it really runs at, which the browser chooses,
  and a \<open>ScriptProcessorNode\<close> with its \<open>onaudioprocess\<close> handler and its connection.
\<close>

record audio_context =
  sampleRate :: nat
  ctx_closed :: bool

record processor =
  handler_set :: bool
  node_connected :: bool

text \<open>
  The environment: every \<open>WebSocket\<close> and every processor node created so far (an
  object is named by its position), and the trace of observable actions.
\<close>

record browser =
  sockets :: "websocket list"
  processors :: "processor list"
  trace :: "action list"

definition log_action :: "action \<Rightarrow> browser \<Rightarrow> browser" where
  "log_action a b = b\<lparr>trace := trace b @ [a]\<rparr>"

definition ready :: "browser \<Rightarrow> nat \<Rightarrow> ready_state" where
  "ready b i = (if i < length (sockets b) then readyState (sockets b ! i) else CLOSED)"

definition set_ready :: "nat \<Rightarrow> ready_state \<Rightarrow> browser \<Rightarrow> browser" where
  "set_ready i r b =
     (if i < length (sockets b)
      then b\<lparr>sockets := (sockets b)[i := (sockets b ! i)\<lparr>readyState := r\<rparr>]\<rparr>
      else b)"

text \<open>
  \<open>WebSocket.send\<close>: an InvalidStateError while the socket is connecting; the frame is
  transmitted when the socket is open; it is discarded silently once closing has begun.
\<close>

definition ws_send :: "nat \<Rightarrow> frame \<Rightarrow> browser \<Rightarrow> js_error + browser" where
  "ws_send i f b =
     (case ready b i of
        CONNECTING \<Rightarrow> Inl InvalidStateError
      | OPEN \<Rightarrow> Inr (log_action (Transmit i f) b)
      | CLOSING \<Rightarrow> Inr b
      | CLOSED \<Rightarrow> Inr b)"

text \<open>\<open>WebSocket.close()\<close>: starts the closing handshake unless it has already begun.\<close>

definition ws_close :: "nat \<Rightarrow> browser \<Rightarrow> browser" where
  "ws_close i b =
     (case ready b i of
        CONNECTING \<Rightarrow> log_action (CloseCalled i) (set_ready i CLOSING b)
      | OPEN \<Rightarrow> log_action (CloseCalled i) (set_ready i CLOSING b)
      | CLOSING \<Rightarrow> b
      | CLOSED \<Rightarrow> b)"

section \<open>The connection URL (deepgram.ts, connect)\<close>

text \<open>
  \<open>URLSearchParams.set\<close>: the first pair with the name takes the value and later pairs
  with the name are removed; a new name is appended.
\<close>

fun searchParams_set :: "string \<Rightarrow> string \<Rightarrow> (string \<times> string) list \<Rightarrow> (string \<times> string) list" where
  "searchParams_set k v [] = [(k, v)]"
| "searchParams_set k v ((k', v') # ps) =
     (if k' = k then (k, v) # filter (\<lambda>p. fst p \<noteq> k) ps
      else (k', v') # searchParams_set k v ps)"

text \<open>
  The serialisation of the query: letters, digits and \<open>* - . _\<close> stand for themselves,
  a space becomes \<open>+\<close>, any other code unit is percent-encoded in UTF-8.
\<close>

definition hex_digit :: "nat \<Rightarrow> char" where
  "hex_digit n = (if n < 10 then char_of (48 + n) else char_of (55 + n))"

definition percent :: "nat \<Rightarrow> string" where
  "percent n = [CHR ''%'', hex_digit (n div 16), hex_digit (n mod 16)]"

definition form_char :: "char \<Rightarrow> string" where
  "form_char c =
     (let n = (of_char c :: nat)
      in if (48 \<le> n \<and> n \<le> 57) \<or> (65 \<le> n \<and> n \<le> 90) \<or> (97 \<le> n \<and> n \<le> 122)
            \<or> n \<in> {42, 45, 46, 95}
         then [c]
         else if n = 32 then ''+''
         else if n < 128 then percent n
         else percent (192 + n div 64) @ percent (128 + n mod 64))"

definition form_encode :: "string \<Rightarrow> string" where
  "form_encode s = concat (map form_char s)"

fun query_string :: "(string \<times> string) list \<Rightarrow> string" where
  "query_string [] = []"
| "query_string [(k, v)] = form_encode k @ ''='' @ form_encode v"
| "query_string ((k, v) # p # ps) = form_encode k @ ''='' @ form_encode v @ ''&'' @ query_string (p # ps)"

definition url_toString :: "string \<Rightarrow> (string \<times> string) list \<Rightarrow> string" where
  "url_toString base ps = (if ps = [] then base else base @ ''?'' @ query_string ps)"

definition connect_params :: "(string \<times> string) list" where
  "connect_params =
     searchParams_set ''interim_results'' ''true''
       (searchParams_set ''punctuate'' ''true''
         (searchParams_set ''language'' ''en-US''
           (searchParams_set ''channels'' ''1''
             (searchParams_set ''sample_rate'' ''16000''
               (searchParams_set ''encoding'' ''linear16'' [])))))"

definition connect_url :: string where
  "connect_url = url_toString ''wss://api.deepgram.com/v1/listen'' connect_params"

section \<open>DeepgramClient (deepgram.ts)\<close>

text \<open>The field \<open>socket\<close> names a \<open>WebSocket\<close> of the environment, or is \<open>null\<close>.\<close>

record DeepgramClient =
  apiKey :: string
  socket :: "nat option"

definition isConnected :: "DeepgramClient \<Rightarrow> browser \<Rightarrow> bool" where
  "isConnected c b = (case socket c of None \<Rightarrow> False | Some i \<Rightarrow> ready b i = OPEN)"

text \<open>
  \<open>connect()\<close> up to the point where its promise is returned: it is already resolved
  when the client is connected; otherwise a new \<open>WebSocket\<close> is created, which the
  promise waits for. The constructor is taken to accept the URL and the protocol list:
  a key that is not a valid protocol token distinct from \<open>token\<close>, for which the
  constructor raises and the promise is rejected with no socket created, is not covered.
\<close>

datatype connect_result = Resolved | Waiting nat

definition connect :: "DeepgramClient \<Rightarrow> browser \<Rightarrow> connect_result \<times> browser" where
  "connect c b =
     (if isConnected c b then (Resolved, b)
      else (let i = length (sockets b);
                ws = \<lparr>ws_url = connect_url, ws_protocols = [''token'', apiKey c],
                      readyState = CONNECTING\<rparr>
            in (Waiting i,
                log_action (WsCreated i connect_url [''token'', apiKey c])
                  (b\<lparr>sockets := sockets b @ [ws]\<rparr>))))"

text \<open>
  \<open>sendAudioChunk\<close>: the result is an exception that leaves the method, or the client
  and the environment after the call.
\<close>

definition sendAudioChunk ::
  "jsnum list \<Rightarrow> DeepgramClient \<Rightarrow> browser \<Rightarrow> js_error + DeepgramClient \<times> browser" where
  "sendAudioChunk chunk c b =
     (case socket c of
        None \<Rightarrow> Inr (c, b)
      | Some i \<Rightarrow>
          (if \<not> isConnected c b then Inr (c, b)
           else (case float32ToLinear16 chunk of
                   Inl e \<Rightarrow> Inl e
                 | Inr buffer \<Rightarrow>
                     (case ws_send i (Binary buffer) b of
                        Inl e \<Rightarrow> Inl e
                      | Inr b' \<Rightarrow> Inr (c, b')))))"

text \<open>\<open>JSON.stringify({ type: "Finalize" })\<close>.\<close>

definition finalize_message :: string where
  \<open>finalize_message = ''{"type":"Finalize"}''\<close>

text \<open>
  \<open>finalizeAndClose\<close>. The function is \<open>async\<close> but contains no \<open>await\<close>: its body runs to
  the end within the call.
\<close>

definition finalizeAndClose :: "DeepgramClient \<Rightarrow> browser \<Rightarrow> DeepgramClient \<times> browser" where
  "finalizeAndClose c b =
     (case socket c of
        None \<Rightarrow> (c, b)
      | Some i \<Rightarrow>
          (let b1 = (case ws_send i (TextFrame finalize_message) b of
                       Inl e \<Rightarrow> log_action (ConsoleError ''Error sending Finalize message'') b
                     | Inr b' \<Rightarrow> b')
           in (c\<lparr>socket := None\<rparr>, ws_close i b1)))"

section \<open>AudioCapture (audio.ts)\<close>

text \<open>
  The four handles. A media stream and the source node made from it are named by the
  number of the stream; the processor node by its position in the environment.
\<close>

record AudioCapture =
  mediaStream :: "nat option"
  audioContext :: "audio_context option"
  sourceNode :: "nat option"
  processorNode :: "nat option"

definition isActive :: "AudioCapture \<Rightarrow> bool" where
  "isActive a = (audioContext a \<noteq> None)"

text \<open>
  \<open>start()\<close> up to its \<open>await\<close>: it returns at once when capture is active, otherwise it
  asks for the microphone and is suspended.
\<close>

datatype start_result = Started | AwaitingMicrophone

definition start :: "AudioCapture \<Rightarrow> browser \<Rightarrow> start_result \<times> browser" where
  "start a b = (if isActive a then (Started, b) else (AwaitingMicrophone, log_action GetUserMedia b))"

text \<open>
  \<open>start()\<close> after \<open>getUserMedia\<close> has resolved with stream \<open>sid\<close>: the context is asked
  for 16000 Hz and runs at the rate the browser gives it; the processor node is created
  with its handler and connected. The constructors are taken to succeed.
\<close>

definition start_resume :: "nat \<Rightarrow> nat \<Rightarrow> AudioCapture \<Rightarrow> browser \<Rightarrow> AudioCapture \<times> browser" where
  "start_resume sid rate a b =
     (let n = length (processors b)
      in (a\<lparr>mediaStream := Some sid,
            audioContext := Some \<lparr>sampleRate = rate, ctx_closed = False\<rparr>,
            sourceNode := Some sid,
            processorNode := Some n\<rparr>,
          b\<lparr>processors := processors b @ [\<lparr>handler_set = True, node_connected = True\<rparr>]\<rparr>))"

text \<open>
  \<open>stop()\<close>. No call in it can raise: every handle is tested before it is used, and
  the promise of \<open>close()\<close>, which is rejected for a context that is already closed, has
  a \<open>catch\<close> handler. That handler runs in a later microtask; the trace records its
  message at the call of \<open>close()\<close>.
\<close>

definition disconnect_processor :: "nat \<Rightarrow> browser \<Rightarrow> browser" where
  "disconnect_processor n b =
     log_action (ProcessorDisconnected n)
       (if n < length (processors b)
        then b\<lparr>processors := (processors b)[n := \<lparr>handler_set = False, node_connected = False\<rparr>]\<rparr>
        else b)"

definition close_context :: "audio_context \<Rightarrow> browser \<Rightarrow> browser" where
  "close_context ctx b =
     (if ctx_closed ctx then log_action (ConsoleError ''Error closing audio context'') b
      else log_action ContextClosed b)"

definition stop :: "AudioCapture \<Rightarrow> browser \<Rightarrow> AudioCapture \<times> browser" where
  "stop a b =
     (let b1 = (case processorNode a of None \<Rightarrow> b | Some n \<Rightarrow> disconnect_processor n b);
          b2 = (case sourceNode a of None \<Rightarrow> b1 | Some sid \<Rightarrow> log_action (SourceDisconnected sid) b1);
          b3 = (case mediaStream a of None \<Rightarrow> b2 | Some sid \<Rightarrow> log_action (TracksStopped sid) b2);
          b4 = (case audioContext a of None \<Rightarrow> b3 | Some ctx \<Rightarrow> close_context ctx b3)
      in (a\<lparr>mediaStream := None, audioContext := None, sourceNode := None, processorNode := None\<rparr>,
          log_action AudioStopReturned b4))"

section \<open>The push-to-talk coordinator (main.ts)\<close>

text \<open>
  A call of \<open>startPushToTalk\<close> that is suspended at an \<open>await\<close>: on the promise of
  \<open>connect()\<close> for a socket, or on the promise of \<open>audioCapture.start()\<close>.
\<close>

datatype task = AwaitConnect nat | AwaitStart

record app =
  deepgram :: DeepgramClient
  audioCapture :: AudioCapture
  isHolding :: bool
  suspended :: "task list"
  env :: browser

definition emit :: "action list \<Rightarrow> app \<Rightarrow> app" where
  "emit as s = s\<lparr>env := (env s)\<lparr>trace := trace (env s) @ as\<rparr>\<rparr>"

text \<open>The second \<open>try\<close> block of \<open>startPushToTalk\<close>, up to the \<open>await\<close>.\<close>

definition begin_capture :: "app \<Rightarrow> app" where
  "begin_capture s =
     (case start (audioCapture s) (env s) of
        (Started, b) \<Rightarrow>
          emit [SetStatus Listening] (s\<lparr>env := b\<rparr>)
      | (AwaitingMicrophone, b) \<Rightarrow> s\<lparr>env := b, suspended := suspended s @ [AwaitStart]\<rparr>)"

definition startPushToTalk :: "app \<Rightarrow> app" where
  "startPushToTalk s =
     (if isHolding s then s
      else (let s1 = emit [ClearError, SetStatus Listening] (s\<lparr>isHolding := True\<rparr>)
            in (case connect (deepgram s1) (env s1) of
                  (Resolved, b) \<Rightarrow> begin_capture (s1\<lparr>env := b\<rparr>)
                | (Waiting i, b) \<Rightarrow> s1\<lparr>env := b, suspended := suspended s1 @ [AwaitConnect i]\<rparr>)))"

text \<open>The \<open>catch\<close> block of the first \<open>try\<close>: the promise of \<open>connect()\<close> was rejected.\<close>

definition connect_rejected :: "app \<Rightarrow> app" where
  "connect_rejected s =
     emit [ConsoleError ''Deepgram connection error'', SetError, SetStatus Error]
       (s\<lparr>isHolding := False\<rparr>)"

text \<open>The \<open>catch\<close> block of the second \<open>try\<close>: the promise of \<open>start()\<close> was rejected.\<close>

definition start_rejected :: "app \<Rightarrow> app" where
  "start_rejected s =
     (let s1 = emit [ConsoleError ''Microphone error''] (s\<lparr>isHolding := False\<rparr>);
          (c, b) = finalizeAndClose (deepgram s1) (env s1)
      in emit [SetError, SetStatus Error] (s1\<lparr>deepgram := c, env := b\<rparr>))"

definition stopPushToTalk :: "app \<Rightarrow> app" where
  "stopPushToTalk s =
     (if \<not> isHolding s then s
      else (let s1 = s\<lparr>isHolding := False\<rparr>;
                (a, b1) = stop (audioCapture s1) (env s1);
                (c, b2) = finalizeAndClose (deepgram s1) b1
            in emit [SetStatus Idle] (s1\<lparr>audioCapture := a, deepgram := c, env := b2\<rparr>)))"

text \<open>The callback given to \<open>AudioCapture\<close>; an exception leaves the state as it is.\<close>

definition onChunk :: "jsnum list \<Rightarrow> app \<Rightarrow> app" where
  "onChunk chunk s =
     (case sendAudioChunk chunk (deepgram s) (env s) of
        Inl e \<Rightarrow> s
      | Inr (c, b) \<Rightarrow> s\<lparr>deepgram := c, env := b\<rparr>)"

section \<open>Events\<close>

text \<open>
  Everything runs on one event loop; each event below is one task of it, together with
  the continuations that its resolved promises release.
  \<^item> \<open>Activate\<close>: mousedown, or keydown of space or enter, on the button.
  \<^item> \<open>Deactivate\<close>: mouseup, mouseleave, or keyup of space or enter.
  \<^item> \<open>WsOpen i\<close>, \<open>WsError i\<close>, \<open>WsClose i\<close>, \<open>WsMessage i m\<close>: the events of socket \<open>i\<close>.
  \<^item> \<open>WsClosing i\<close>: the server starts the closing handshake of socket \<open>i\<close>; no handler
    runs.
  \<^item> \<open>MicGranted sid rate\<close>, \<open>MicDenied\<close>: the oldest pending \<open>getUserMedia\<close> resolves with
    stream \<open>sid\<close>, the context then running at \<open>rate\<close>, or is rejected.
  \<^item> \<open>AudioProcess n chunk\<close>: processor node \<open>n\<close> delivers a buffer.
  An event that cannot occur in the state it is given leaves the state unchanged.
\<close>

datatype event =
    Activate
  | Deactivate
  | WsOpen nat
  | WsError nat
  | WsClose nat
  | WsClosing nat
  | WsMessage nat inbound
  | MicGranted nat nat
  | MicDenied
  | AudioProcess nat "jsnum list"

definition set_socket :: "nat option \<Rightarrow> app \<Rightarrow> app" where
  "set_socket x s = s\<lparr>deepgram := (deepgram s)\<lparr>socket := x\<rparr>\<rparr>"

definition in_env :: "(browser \<Rightarrow> browser) \<Rightarrow> app \<Rightarrow> app" where
  "in_env f s = s\<lparr>env := f (env s)\<rparr>"

fun step :: "event \<Rightarrow> app \<Rightarrow> app" where
  "step Activate s = startPushToTalk s"
| "step Deactivate s = stopPushToTalk s"
| "step (WsOpen i) s =
     (if ready (env s) i = CONNECTING
      then (let s1 = set_socket (Some i) (in_env (set_ready i OPEN) s)
            in if AwaitConnect i \<in> set (suspended s1)
               then begin_capture (s1\<lparr>suspended := remove1 (AwaitConnect i) (suspended s1)\<rparr>)
               else s1)
      else s)"
| "step (WsError i) s =
     (if i < length (sockets (env s))
      then (let s1 = emit [ConsoleError ''[Deepgram] WebSocket error'',
                           OnError ''Deepgram WebSocket error.''] s
            in if AwaitConnect i \<in> set (suspended s1)
               then connect_rejected (s1\<lparr>suspended := remove1 (AwaitConnect i) (suspended s1)\<rparr>)
               else s1)
      else s)"
| "step (WsClose i) s =
     (if i < length (sockets (env s)) \<and> ready (env s) i \<noteq> CLOSED
      then set_socket None (in_env (set_ready i CLOSED) s)
      else s)"
| "step (WsClosing i) s =
     (if ready (env s) i = OPEN then in_env (set_ready i CLOSING) s else s)"
| "step (WsMessage i m) s =
     (if ready (env s) i = OPEN \<or> ready (env s) i = CLOSING
      then emit (onmessage m) s
      else s)"
| "step (MicGranted sid rate) s =
     (if AwaitStart \<in> set (suspended s)
      then (let (a, b) = start_resume sid rate (audioCapture s) (env s)
            in emit [SetStatus Listening]
                 (s\<lparr>audioCapture := a, env := b, suspended := remove1 AwaitStart (suspended s)\<rparr>))
      else s)"
| "step MicDenied s =
     (if AwaitStart \<in> set (suspended s)
      then start_rejected (s\<lparr>suspended := remove1 AwaitStart (suspended s)\<rparr>)
      else s)"
| "step (AudioProcess n chunk) s =
     (if n < length (processors (env s)) \<and> handler_set (processors (env s) ! n)
        \<and> node_connected (processors (env s) ! n)
      then onChunk chunk s
      else s)"

definition run :: "event list \<Rightarrow> app \<Rightarrow> app" where
  "run es s = foldl (\<lambda>s e. step e s) s es"

text \<open>The state when the page has loaded with an API key configured.\<close>

definition init :: "string \<Rightarrow> app" where
  "init key =
     \<lparr>deepgram = \<lparr>apiKey = key, socket = None\<rparr>,
      audioCapture = \<lparr>mediaStream = None, audioContext = None, sourceNode = None,
                      processorNode = None\<rparr>,
      isHolding = False,
      suspended = [],
      env = \<lparr>sockets = [], processors = [], trace = [SetStatus Idle]\<rparr>\<rparr>"

section \<open>Notions used by the properties\<close>

text \<open>A session exists from the creation of its socket until the socket is closed.\<close>

definition live_sessions :: "browser \<Rightarrow> nat" where
  "live_sessions b = length (filter (\<lambda>w. readyState w \<noteq> CLOSED) (sockets b))"

text \<open>The frames transmitted on socket \<open>i\<close>, in order.\<close>

fun wire :: "nat \<Rightarrow> action list \<Rightarrow> frame list" where
  "wire i [] = []"
| "wire i (Transmit j f # as) = (if j = i then f # wire i as else wire i as)"
| "wire i (a # as) = wire i as"

definition is_finalize :: "frame \<Rightarrow> bool" where
  "is_finalize f = (f = TextFrame finalize_message)"

text \<open>Nothing follows a Finalize message on the wire.\<close>

fun finalize_is_last :: "frame list \<Rightarrow> bool" where
  "finalize_is_last [] = True"
| "finalize_is_last (f # fs) = ((is_finalize f \<longrightarrow> fs = []) \<and> finalize_is_last fs)"

text \<open>In a trace, every Finalize message on socket \<open>i\<close> is followed at once by its close.\<close>

fun finalize_then_close :: "nat \<Rightarrow> action list \<Rightarrow> bool" where
  "finalize_then_close i [] = True"
| "finalize_then_close i (a # as) =
     ((a = Transmit i (TextFrame finalize_message) \<longrightarrow> take 1 as = [CloseCalled i])
      \<and> finalize_then_close i as)"

fun is_transmit :: "action \<Rightarrow> bool" where
  "is_transmit (Transmit i f) = True"
| "is_transmit a = False"

text \<open>Decimal digits of a number, as \<open>String(n)\<close> prints them.\<close>

fun show_nat :: "nat \<Rightarrow> string" where
  "show_nat n = (if n < 10 then [char_of (48 + n)] else show_nat (n div 10) @ [char_of (48 + n mod 10)])"

declare show_nat.simps [simp del]

text \<open>
  The handshake as the specification words it: the same parameters, with the sample
  rate that was negotiated with the audio device.
\<close>

definition spec_connect_params :: "nat \<Rightarrow> (string \<times> string) list" where
  "spec_connect_params rate =
     [(''encoding'', ''linear16''), (''sample_rate'', show_nat rate), (''channels'', ''1''),
      (''language'', ''en-US''), (''punctuate'', ''true''), (''interim_results'', ''true'')]"

text \<open>
  The invariant of the environment: frames are only recorded for sockets that exist; a
  socket on which Finalize was transmitted is closing or closed; nothing follows a
  Finalize message on any wire; every Finalize message is followed at once by the close.
\<close>

definition wire_inv :: "browser \<Rightarrow> bool" where
  "wire_inv b = (\<forall>i.
      (wire i (trace b) \<noteq> [] \<longrightarrow> i < length (sockets b)) \<and>
      ((\<exists>f \<in> set (wire i (trace b)). is_finalize f) \<longrightarrow> ready b i = CLOSING \<or> ready b i = CLOSED) \<and>
      finalize_is_last (wire i (trace b)) \<and>
      finalize_then_close i (trace b))"

text \<open>The URL and the protocol list of every socket created so far.\<close>

definition handshakes :: "browser \<Rightarrow> (string \<times> string list) list" where
  "handshakes b = map (\<lambda>w. (ws_url w, ws_protocols w)) (sockets b)"

text \<open>The client only ever holds a socket whose handshake has completed.\<close>

definition handle_inv :: "app \<Rightarrow> bool" where
  "handle_inv s = (\<forall>i. socket (deepgram s) = Some i \<longrightarrow> ready (env s) i = OPEN \<or> ready (env s) i = CLOSING)"

text \<open>Every socket was created by \<open>connect()\<close> with the client's key.\<close>

definition handshake_inv :: "string \<Rightarrow> app \<Rightarrow> bool" where
  "handshake_inv key s = (apiKey (deepgram s) = key \<and>
     (\<forall>h \<in> set (handshakes (env s)). h = (connect_url, [''token'', key])))"

section \<open>The encoder is correct\<close>

lemma le16_roundtrip:
  "or (push_bit 8 (ucast (ucast (drop_bit 8 w) :: 8 word) :: 16 word))
      (ucast (ucast w :: 8 word) :: 16 word) = (w :: 16 word)"
  by (rule bit_word_eqI) (auto simp: bit_simps)

lemma js_trunc_bounds:
  "- 32768 \<le> x \<Longrightarrow> x \<le> 32767 \<Longrightarrow> - 32768 \<le> js_trunc x \<and> js_trunc x \<le> 32767"
  unfolding js_trunc_def by (auto simp: le_floor_iff ceiling_le_iff floor_le_iff le_ceiling_iff)

lemma sint16: "- 32768 \<le> k \<Longrightarrow> k \<le> 32767 \<Longrightarrow> sint (word_of_int k :: 16 word) = k"
  by (simp add: sint_sbintrunc' signed_take_bit_int_eq_self)

lemma scaled_value_bounds: "- 32768 \<le> scaled_value s \<and> scaled_value s \<le> 32767"
  by (cases s) (auto simp: scaled_value_def clamp_real_def min_def max_def)

lemma scale_clamp: "s \<noteq> NaN \<Longrightarrow> scale (clamp s) = Fin (scaled_value s)"
  by (cases s) (auto simp: scale_def clamp_def scaled_value_def clamp_real_def)

lemma upd2_take_drop:
  assumes h: "off + 2 \<le> length buf"
  shows "buf[off := a, off + 1 := b] = take off buf @ [a, b] @ drop (off + 2) buf"
proof -
  have "buf[off := a] = take off buf @ a # drop (Suc off) buf"
    using h by (simp add: upd_conv_take_nth_drop)
  moreover have "(take off buf @ a # drop (Suc off) buf)[off + 1 := b]
      = take off buf @ a # (drop (Suc off) buf)[0 := b]"
    using h by (simp add: list_update_append)
  moreover have "(drop (Suc off) buf)[0 := b] = b # drop (off + 2) buf"
    using h by (simp add: upd_conv_take_nth_drop)
  ultimately show ?thesis by simp
qed

lemma setInt16_ok:
  "off + 2 \<le> length buf \<Longrightarrow>
   setInt16 off v buf =
     Inr (take off buf @ [ucast (to_int16 v), ucast (drop_bit 8 (to_int16 v))] @ drop (off + 2) buf)"
  by (simp only: setInt16_def Let_def upd2_take_drop if_True)

text \<open>
  The loop invariant: the bytes below \<open>2 * i\<close> are final, and the rest of the run
  writes the encodings of the remaining samples behind them.
\<close>

lemma encode_loop_eq:
  "length buf = 2 * length chunk \<Longrightarrow> i \<le> length chunk \<Longrightarrow>
   encode_loop i chunk buf = Inr (take (2 * i) buf @ concat (map encode_sample (drop i chunk)))"
proof (induction i chunk buf rule: encode_loop.induct)
  case (1 i chunk buf)
  show ?case
  proof (cases "i < length chunk")
    case False
    with 1 show ?thesis by (subst encode_loop.simps) simp
  next
    case True
    let ?v = "scale (clamp (chunk ! i))"
    let ?buf' = "take (i * 2) buf @ [ucast (to_int16 ?v), ucast (drop_bit 8 (to_int16 ?v))]
                  @ drop (i * 2 + 2) buf"
    have fit: "i * 2 + 2 \<le> length buf" using True 1 by simp
    have s: "setInt16 (i * 2) ?v buf = Inr ?buf'" using setInt16_ok[OF fit] .
    have len: "length ?buf' = 2 * length chunk" using fit 1 by simp
    have ih: "encode_loop (i + 1) chunk ?buf'
                = Inr (take (2 * (i + 1)) ?buf' @ concat (map encode_sample (drop (i + 1) chunk)))"
      using "1.IH"[OF True s len] True by simp
    have tk: "take (2 * (i + 1)) ?buf' = take (2 * i) buf @ encode_sample (chunk ! i)"
      using fit by (simp add: encode_sample_def Let_def mult.commute)
    have dr: "drop i chunk = chunk ! i # drop (i + 1) chunk"
      using True by (simp add: Cons_nth_drop_Suc)
    show ?thesis
      using True s ih tk dr by (subst encode_loop.simps) simp
  qed
qed

lemma float32ToLinear16_eq: "float32ToLinear16 chunk = Inr (concat (map encode_sample chunk))"
  unfolding float32ToLinear16_def by (subst encode_loop_eq) simp_all

lemma length_concat_encode: "length (concat (map encode_sample chunk)) = 2 * length chunk"
  by (induction chunk) (simp_all add: encode_sample_def Let_def)

lemma nth_concat_encode:
  "i < length chunk \<Longrightarrow>
   concat (map encode_sample chunk) ! (2 * i) = ucast (to_int16 (scale (clamp (chunk ! i)))) \<and>
   concat (map encode_sample chunk) ! (2 * i + 1)
     = ucast (drop_bit 8 (to_int16 (scale (clamp (chunk ! i)))))"
proof (induction chunk arbitrary: i)
  case Nil
  then show ?case by simp
next
  case (Cons a chunk)
  show ?case
  proof (cases i)
    case 0
    then show ?thesis by (simp add: encode_sample_def Let_def)
  next
    case (Suc j)
    with Cons.prems have "j < length chunk" by simp
    from Cons.IH[OF this] Suc show ?thesis by (simp add: encode_sample_def Let_def)
  qed
qed

lemma getInt16_encode:
  "i < length chunk \<Longrightarrow>
   getInt16 (concat (map encode_sample chunk)) (2 * i) = sint (to_int16 (scale (clamp (chunk ! i))))"
  using nth_concat_encode[of i chunk] by (simp add: getInt16_def le16_roundtrip)

lemma sint_to_int16: "s \<noteq> NaN \<Longrightarrow> sint (to_int16 (scale (clamp s))) = js_trunc (scaled_value s)"
  using js_trunc_bounds[OF conjunct1[OF scaled_value_bounds] conjunct2[OF scaled_value_bounds], of s]
  by (simp add: scale_clamp sint16)

text \<open>
  Claim C3. For every block of samples the encoder returns (it does not raise) a byte
  sequence of exactly twice as many bytes as there are samples. For every sample that is
  a number, the little-endian signed 16-bit value at position \<open>i\<close> is the sample clamped
  to \<open>[-1, 1]\<close> and scaled by 32768 when negative and by 32767 otherwise, converted to an
  integer the way \<open>setInt16\<close> converts it, by dropping the fraction. The empty block
  gives the empty byte sequence.
\<close>

theorem float32ToLinear16_correct:
  "\<exists>bytes. float32ToLinear16 chunk = Inr bytes \<and> length bytes = 2 * length chunk \<and>
     (\<forall>i < length chunk. chunk ! i \<noteq> NaN \<longrightarrow>
        getInt16 bytes (2 * i) = js_trunc (scaled_value (chunk ! i))) \<and>
     (chunk = [] \<longrightarrow> bytes = [])"
  by (simp add: float32ToLinear16_eq length_concat_encode getInt16_encode sint_to_int16)

theorem float32ToLinear16_correct_witness:
  "float32ToLinear16 [Fin (1 / 2), NaN, Fin (- 3)] = Inr [255, 63, 0, 0, 0, 128] \<and>
   getInt16 [255, 63, 0, 0, 0, 128] 4 = js_trunc (scaled_value (Fin (- 3))) \<and>
   js_trunc (scaled_value (Fin (- 3))) = - 32768 \<and>
   getInt16 [255, 63, 0, 0, 0, 128] 0 = 16383"
  using float32ToLinear16_correct[of "[Fin (1 / 2), NaN, Fin (- 3)]"]
  by (simp add: float32ToLinear16_eq encode_sample_def scale_def clamp_def js_trunc_def
        scaled_value_def clamp_real_def getInt16_def)

lemma decode_trunc_close:
  assumes "- 1 \<le> s" "s \<le> 1"
  shows "\<bar>decode16 (js_trunc (scaled_value (Fin s))) - s\<bar> \<le> 1 / 32767"
proof (cases "s < 0")
  case True
  then have sv: "scaled_value (Fin s) = s * 32768"
    using assms by (simp add: scaled_value_def clamp_real_def)
  have neg: "s * 32768 < 0" using True by simp
  define v where "v = \<lceil>s * 32768\<rceil>"
  have tr: "js_trunc (scaled_value (Fin s)) = v"
    using neg by (simp add: sv js_trunc_def v_def)
  have lo: "s * 32768 \<le> real_of_int v" and hi: "real_of_int v < s * 32768 + 1"
    unfolding v_def by linarith+
  have vle: "v \<le> 0" using neg unfolding v_def by (simp add: ceiling_le_iff)
  show ?thesis
  proof (cases "v < 0")
    case True
    then have "decode16 v = real_of_int v / 32768" by (simp add: decode16_def)
    moreover have "s \<le> real_of_int v / 32768" using lo by simp
    moreover have "real_of_int v / 32768 < s + 1 / 32768" using hi by (simp add: field_simps)
    ultimately show ?thesis using tr by simp
  next
    case False
    with vle have v0: "v = 0" by simp
    then have "decode16 v = 0" by (simp add: decode16_def)
    moreover have "- (1 / 32768) < s" using hi v0 by (simp add: field_simps)
    ultimately show ?thesis using tr True by simp
  qed
next
  case False
  then have sv: "scaled_value (Fin s) = s * 32767"
    using assms by (simp add: scaled_value_def clamp_real_def)
  define v where "v = \<lfloor>s * 32767\<rfloor>"
  have nn: "0 \<le> s * 32767" using False by simp
  have tr: "js_trunc (scaled_value (Fin s)) = v"
    using nn by (simp add: sv js_trunc_def v_def)
  have v0: "0 \<le> v" using nn unfolding v_def by simp
  have lo: "real_of_int v \<le> s * 32767" and hi: "s * 32767 < real_of_int v + 1"
    unfolding v_def by linarith+
  have "decode16 v = real_of_int v / 32767" using v0 by (simp add: decode16_def)
  moreover have "real_of_int v / 32767 \<le> s" using lo by (simp add: field_simps)
  moreover have "s - 1 / 32767 < real_of_int v / 32767" using hi by (simp add: field_simps)
  ultimately show ?thesis using tr by simp
qed

text \<open>
  Claim C4. For a sample \<open>s\<close> in \<open>[-1, 1]\<close> at any position of a block, the signed
  16-bit value the encoder writes there, decoded by the reverse of the scaling, differs
  from \<open>s\<close> by at most \<open>1 / 32767\<close>.
\<close>

theorem encode_decode_within_step:
  assumes "i < length chunk" "chunk ! i = Fin s" "- 1 \<le> s" "s \<le> 1"
  shows "\<exists>bytes. float32ToLinear16 chunk = Inr bytes \<and>
           \<bar>decode16 (getInt16 bytes (2 * i)) - s\<bar> \<le> 1 / 32767"
  using assms decode_trunc_close[of s]
  by (simp add: float32ToLinear16_eq getInt16_encode sint_to_int16)

theorem encode_decode_within_step_witness:
  "(0::nat) < length [Fin (1 / 3), Fin (- (1 / 3))] \<and>
   [Fin (1 / 3), Fin (- (1 / 3))] ! 0 = Fin (1 / 3) \<and> - 1 \<le> (1 / 3 :: real) \<and> (1 / 3 :: real) \<le> 1 \<and>
   (\<exists>bytes. float32ToLinear16 [Fin (1 / 3), Fin (- (1 / 3))] = Inr bytes \<and>
            \<bar>decode16 (getInt16 bytes (2 * 0)) - 1 / 3\<bar> \<le> 1 / 32767)"
  using encode_decode_within_step[of 0 "[Fin (1 / 3), Fin (- (1 / 3))]" "1 / 3"] by simp

section \<open>The environment's operations\<close>

text \<open>
  What logging, a change of ready state, \<open>close()\<close> and \<open>finalizeAndClose\<close> do to the
  parts of the environment.
\<close>

lemma ready_log [simp]: "ready (log_action a b) i = ready b i"
  by (simp add: ready_def log_action_def)

lemma sockets_log [simp]: "sockets (log_action a b) = sockets b"
  by (simp add: log_action_def)

lemma processors_log [simp]: "processors (log_action a b) = processors b"
  by (simp add: log_action_def)

lemma trace_log [simp]: "trace (log_action a b) = trace b @ [a]"
  by (simp add: log_action_def)

lemma ready_set_ready: "ready (set_ready i r b) j = (if j = i \<and> i < length (sockets b) then r else ready b j)"
  by (simp add: ready_def set_ready_def)

lemma trace_set_ready [simp]: "trace (set_ready i r b) = trace b"
  by (simp add: set_ready_def)

lemma processors_set_ready [simp]: "processors (set_ready i r b) = processors b"
  by (simp add: set_ready_def)

lemma length_sockets_set_ready [simp]: "length (sockets (set_ready i r b)) = length (sockets b)"
  by (simp add: set_ready_def)

lemma ready_ws_close: "ready (ws_close i b) j = (if j = i \<and> ready b i \<in> {CONNECTING, OPEN} then CLOSING else ready b j)"
  by (cases "ready b i") (auto simp: ws_close_def ready_set_ready, auto simp: ready_def split: if_splits)

lemma ws_close_closed: "ready (ws_close i b) i = CLOSING \<or> ready (ws_close i b) i = CLOSED"
  by (cases "ready b i") (simp_all add: ready_ws_close)

lemma ws_close_idem: "ws_close i (ws_close i b) = ws_close i b"
  using ws_close_closed[of i b] by (auto simp: ws_close_def[of i "ws_close i b"])

lemma finalizeAndClose_None: "socket c = None \<Longrightarrow> finalizeAndClose c b = (c, b)"
  by (simp add: finalizeAndClose_def)

lemma finalizeAndClose_socket: "socket (fst (finalizeAndClose c b)) = None"
  by (simp add: finalizeAndClose_def Let_def split: option.splits)

lemma finalizeAndClose_ready:
  "socket c = Some i \<Longrightarrow> ready (snd (finalizeAndClose c b)) i = CLOSING \<or> ready (snd (finalizeAndClose c b)) i = CLOSED"
  by (simp add: finalizeAndClose_def Let_def ws_close_closed)

lemma finalizeAndClose_trace:
  "socket c = Some i \<Longrightarrow> trace (snd (finalizeAndClose c b)) =
     trace b @ (case ready b i of
        CONNECTING \<Rightarrow> [ConsoleError ''Error sending Finalize message'', CloseCalled i]
      | OPEN \<Rightarrow> [Transmit i (TextFrame finalize_message), CloseCalled i]
      | CLOSING \<Rightarrow> []
      | CLOSED \<Rightarrow> [])"
  by (cases "ready b i") (simp_all add: finalizeAndClose_def Let_def ws_send_def ws_close_def)

lemma finalizeAndClose_idem:
  "finalizeAndClose (fst (finalizeAndClose c b)) (snd (finalizeAndClose c b)) = finalizeAndClose c b"
  by (simp add: finalizeAndClose_None finalizeAndClose_socket)


section \<open>The invariant of the wire\<close>

text \<open>
  \<open>wire_inv\<close> holds initially and is kept by every operation of the client, of the
  capture and of the coordinator, hence by every event and in every run.
\<close>

lemma wire_append: "wire i (xs @ ys) = wire i xs @ wire i ys"
  by (induction i xs rule: wire.induct) simp_all

lemma wire_no_transmit: "\<forall>a \<in> set as. \<not> is_transmit a \<Longrightarrow> wire i as = []"
  by (induction i as rule: wire.induct) simp_all

lemma finalize_is_last_append:
  "finalize_is_last (xs @ ys) =
     (finalize_is_last xs \<and> finalize_is_last ys \<and> (ys \<noteq> [] \<longrightarrow> (\<forall>f \<in> set xs. \<not> is_finalize f)))"
  by (induction xs) auto

lemma take1_append: "take 1 xs = [c] \<Longrightarrow> take 1 (xs @ ys) = [c]"
  by (cases xs) auto

lemma finalize_then_close_append:
  "finalize_then_close i xs \<Longrightarrow> finalize_then_close i ys \<Longrightarrow> finalize_then_close i (xs @ ys)"
proof (induction xs)
  case Nil
  then show ?case by simp
next
  case (Cons a as)
  from Cons.prems(1) have f: "finalize_then_close i as"
    and c: "a = Transmit i (TextFrame finalize_message) \<longrightarrow> take 1 as = [CloseCalled i]"
    by simp_all
  from c have c': "a = Transmit i (TextFrame finalize_message) \<longrightarrow> take 1 (as @ ys) = [CloseCalled i]"
    by (intro impI take1_append) (elim impE, assumption+)
  from Cons.IH[OF f Cons.prems(2)] c' show ?case
    by (simp only: append_Cons finalize_then_close.simps simp_thms)
qed

lemma finalize_is_last_count:
  "finalize_is_last fs \<Longrightarrow> count_list fs (TextFrame finalize_message) \<le> 1"
  by (induction fs) (auto simp: is_finalize_def)

lemma finalize_then_close_no_transmit:
  "\<forall>a \<in> set as. \<not> is_transmit a \<Longrightarrow> finalize_then_close i as"
  by (induction as) auto

lemma ready_trace_update [simp]: "ready (b\<lparr>trace := t\<rparr>) i = ready b i"
  by (simp add: ready_def)

lemma ready_processors_update [simp]: "ready (b\<lparr>processors := ps\<rparr>) i = ready b i"
  by (simp add: ready_def)

lemma wire_inv_append:
  assumes "wire_inv b" "\<forall>a \<in> set as. \<not> is_transmit a"
  shows "wire_inv (b\<lparr>trace := trace b @ as\<rparr>)"
  using assms
  by (simp add: wire_inv_def wire_append wire_no_transmit finalize_then_close_append
      finalize_then_close_no_transmit)

lemma wire_inv_log: "wire_inv b \<Longrightarrow> \<not> is_transmit a \<Longrightarrow> wire_inv (log_action a b)"
  using wire_inv_append[of b "[a]"] by (simp add: log_action_def)

lemma wire_inv_processors [simp]: "wire_inv (b\<lparr>processors := ps\<rparr>) = wire_inv b"
  by (simp add: wire_inv_def)

lemma wire_inv_set_ready:
  assumes "wire_inv b" "r = OPEN \<longrightarrow> ready b i = CONNECTING" "r \<noteq> CONNECTING"
  shows "wire_inv (set_ready i r b)"
  using assms unfolding wire_inv_def
  by (cases r) (auto simp: ready_set_ready)

lemma wire_inv_send:
  assumes "wire_inv b" "ws_send i (Binary bs) b = Inr b'"
  shows "wire_inv b'"
proof (cases "ready b i = OPEN")
  case False
  with assms show ?thesis by (cases "ready b i") (auto simp: ws_send_def)
next
  case True
  then have b': "b' = log_action (Transmit i (Binary bs)) b" using assms by (simp add: ws_send_def)
  have inr: "i < length (sockets b)" using True by (auto simp: ready_def split: if_splits)
  have nofin: "\<forall>f \<in> set (wire i (trace b)). \<not> is_finalize f"
    using assms(1) True unfolding wire_inv_def by auto
  have nb: "\<not> is_finalize (Binary bs)" by (simp add: is_finalize_def)
  show ?thesis unfolding wire_inv_def
  proof (intro allI conjI)
    fix j
    show "wire j (trace b') \<noteq> [] \<longrightarrow> j < length (sockets b')"
      using assms(1) inr unfolding wire_inv_def b' by (auto simp: wire_append)
    show "(\<exists>f\<in>set (wire j (trace b')). is_finalize f) \<longrightarrow> ready b' j = CLOSING \<or> ready b' j = CLOSED"
      using assms(1) nb unfolding wire_inv_def b' by (auto simp: wire_append)
    show "finalize_is_last (wire j (trace b'))"
      using assms(1) nofin nb unfolding wire_inv_def b' by (auto simp: wire_append finalize_is_last_append)
    show "finalize_then_close j (trace b')"
      using assms(1) unfolding wire_inv_def b'
      by (auto intro!: finalize_then_close_append)
  qed
qed

lemma wire_inv_finalize:
  assumes "wire_inv b"
  shows "wire_inv (snd (finalizeAndClose c b))"
proof (cases "socket c")
  case None
  with assms show ?thesis by (simp add: finalizeAndClose_def)
next
  case (Some i)
  show ?thesis
  proof (cases "ready b i")
    case CONNECTING
    then have "snd (finalizeAndClose c b) =
        log_action (CloseCalled i) (set_ready i CLOSING (log_action (ConsoleError ''Error sending Finalize message'') b))"
      using Some by (simp add: finalizeAndClose_def ws_send_def ws_close_def)
    then show ?thesis using assms by (auto intro!: wire_inv_log wire_inv_set_ready)
  next
    case CLOSING
    then have "snd (finalizeAndClose c b) = b"
      using Some by (simp add: finalizeAndClose_def ws_send_def ws_close_def)
    then show ?thesis using assms by simp
  next
    case CLOSED
    then have "snd (finalizeAndClose c b) = b"
      using Some by (simp add: finalizeAndClose_def ws_send_def ws_close_def)
    then show ?thesis using assms by simp
  next
    case OPEN
    then have e: "snd (finalizeAndClose c b) =
        log_action (CloseCalled i) (set_ready i CLOSING (log_action (Transmit i (TextFrame finalize_message)) b))"
      using Some by (simp add: finalizeAndClose_def ws_send_def ws_close_def)
    have inr: "i < length (sockets b)" using OPEN by (auto simp: ready_def split: if_splits)
    have nofin: "\<forall>f \<in> set (wire i (trace b)). \<not> is_finalize f"
      using assms(1) OPEN unfolding wire_inv_def by auto
    show ?thesis unfolding wire_inv_def e
    proof (intro allI conjI)
      fix j
      let ?b' = "log_action (CloseCalled i) (set_ready i CLOSING (log_action (Transmit i (TextFrame finalize_message)) b))"
      show "wire j (trace ?b') \<noteq> [] \<longrightarrow> j < length (sockets ?b')"
        using assms(1) inr unfolding wire_inv_def by (auto simp: wire_append)
      show "(\<exists>f\<in>set (wire j (trace ?b')). is_finalize f) \<longrightarrow> ready ?b' j = CLOSING \<or> ready ?b' j = CLOSED"
        using assms(1) inr unfolding wire_inv_def by (auto simp: wire_append ready_set_ready)
      show "finalize_is_last (wire j (trace ?b'))"
        using assms(1) nofin unfolding wire_inv_def by (auto simp: wire_append finalize_is_last_append)
      show "finalize_then_close j (trace ?b')"
        using assms(1) unfolding wire_inv_def
        by (auto intro!: finalize_then_close_append)
    qed
  qed
qed

lemma wire_inv_connect: "wire_inv b \<Longrightarrow> wire_inv (snd (connect c b))"
  unfolding connect_def Let_def
  apply (simp split: if_splits)
  apply (rule impI)
  apply (rule wire_inv_log)
   apply (auto simp: wire_inv_def ready_def nth_append)
  done

lemma wire_inv_stop: "wire_inv b \<Longrightarrow> wire_inv (snd (stop a b))"
  by (auto simp: stop_def Let_def disconnect_processor_def close_context_def
      intro!: wire_inv_log split: option.splits)

lemma wire_inv_start: "wire_inv b \<Longrightarrow> wire_inv (snd (start a b))"
  by (auto simp: start_def intro!: wire_inv_log)

lemma wire_inv_start_resume: "wire_inv b \<Longrightarrow> wire_inv (snd (start_resume sid rate a b))"
  by (simp add: start_resume_def Let_def)

lemma env_emit [simp]: "env (emit as s) = (env s)\<lparr>trace := trace (env s) @ as\<rparr>"
  by (simp add: emit_def)

lemma deepgram_emit [simp]: "deepgram (emit as s) = deepgram s"
  by (simp add: emit_def)

lemma onmessage_no_transmit: "\<forall>a \<in> set (onmessage m). \<not> is_transmit a"
  by (auto simp: onmessage_def split: inbound.splits sum.splits option.splits)

lemma wire_inv_begin_capture: "wire_inv (env s) \<Longrightarrow> wire_inv (env (begin_capture s))"
  by (auto simp: begin_capture_def start_def intro!: wire_inv_append wire_inv_log split: prod.splits)

lemma wire_inv_startPushToTalk: "wire_inv (env s) \<Longrightarrow> wire_inv (env (startPushToTalk s))"
proof -
  assume h: "wire_inv (env s)"
  let ?s1 = "emit [ClearError, SetStatus Listening] (s\<lparr>isHolding := True\<rparr>)"
  have b1: "wire_inv (env ?s1)" using h by (auto intro!: wire_inv_append)
  have b2: "wire_inv (snd (connect (deepgram ?s1) (env ?s1)))" using b1 by (rule wire_inv_connect)
  show ?thesis
  proof (cases "isHolding s")
    case True
    then show ?thesis using h by (simp add: startPushToTalk_def)
  next
    case False
    show ?thesis
    proof (cases "connect (deepgram ?s1) (env ?s1)")
      case (Pair r b)
      with b2 have bb: "wire_inv b" by simp
      show ?thesis
      proof (cases r)
        case Resolved
        have "wire_inv (env (begin_capture (?s1\<lparr>env := b\<rparr>)))"
          by (rule wire_inv_begin_capture) (simp add: bb)
        then show ?thesis using False Pair Resolved by (simp add: startPushToTalk_def Let_def)
      next
        case (Waiting i)
        then show ?thesis using False Pair bb by (simp add: startPushToTalk_def Let_def)
      qed
    qed
  qed
qed

lemma wire_inv_connect_rejected: "wire_inv (env s) \<Longrightarrow> wire_inv (env (connect_rejected s))"
  by (auto simp: connect_rejected_def intro!: wire_inv_append)

lemma wire_inv_start_rejected: "wire_inv (env s) \<Longrightarrow> wire_inv (env (start_rejected s))"
proof -
  assume h: "wire_inv (env s)"
  let ?s1 = "emit [ConsoleError ''Microphone error''] (s\<lparr>isHolding := False\<rparr>)"
  have b1: "wire_inv (env ?s1)" using h by (auto intro!: wire_inv_append)
  have "wire_inv (snd (finalizeAndClose (deepgram ?s1) (env ?s1)))" using b1 by (rule wire_inv_finalize)
  then show ?thesis
    by (auto simp: start_rejected_def Let_def split: prod.splits intro!: wire_inv_append)
qed

lemma wire_inv_stopPushToTalk: "wire_inv (env s) \<Longrightarrow> wire_inv (env (stopPushToTalk s))"
proof -
  assume h: "wire_inv (env s)"
  have b1: "wire_inv (snd (stop (audioCapture s) (env s)))" using h by (rule wire_inv_stop)
  have "wire_inv (snd (finalizeAndClose (deepgram s) (snd (stop (audioCapture s) (env s)))))"
    using b1 by (rule wire_inv_finalize)
  then show ?thesis using h
    by (auto simp: stopPushToTalk_def Let_def split: prod.splits intro!: wire_inv_append)
qed

lemma wire_inv_onChunk: "wire_inv (env s) \<Longrightarrow> wire_inv (env (onChunk chunk s))"
  by (auto simp: onChunk_def sendAudioChunk_def split: sum.splits option.splits if_splits
      dest: wire_inv_send)

lemma env_set_socket [simp]: "env (set_socket x s) = env s"
  by (simp add: set_socket_def)

lemma env_in_env [simp]: "env (in_env f s) = f (env s)"
  by (simp add: in_env_def)

lemma wire_inv_step: "wire_inv (env s) \<Longrightarrow> wire_inv (env (step e s))"
proof (cases e)
  case Activate
  then show "wire_inv (env s) \<Longrightarrow> ?thesis" by (simp add: wire_inv_startPushToTalk)
next
  case Deactivate
  then show "wire_inv (env s) \<Longrightarrow> ?thesis" by (simp add: wire_inv_stopPushToTalk)
next
  case (WsOpen i)
  assume h: "wire_inv (env s)"
  show ?thesis
  proof (cases "ready (env s) i = CONNECTING")
    case False
    then show ?thesis using h WsOpen by simp
  next
    case True
    let ?s1 = "set_socket (Some i) (in_env (set_ready i OPEN) s)"
    have b1: "wire_inv (env ?s1)" using h True by (simp add: wire_inv_set_ready)
    have "wire_inv (env (begin_capture (?s1\<lparr>suspended := remove1 (AwaitConnect i) (suspended ?s1)\<rparr>)))"
      by (rule wire_inv_begin_capture) (use b1 in simp)
    then show ?thesis using WsOpen True b1 by (simp add: Let_def)
  qed
next
  case (WsError i)
  assume h: "wire_inv (env s)"
  let ?s1 = "emit [ConsoleError ''[Deepgram] WebSocket error'', OnError ''Deepgram WebSocket error.''] s"
  have b1: "wire_inv (env ?s1)" using h by (auto intro!: wire_inv_append)
  have "wire_inv (env (connect_rejected (?s1\<lparr>suspended := remove1 (AwaitConnect i) (suspended ?s1)\<rparr>)))"
    by (rule wire_inv_connect_rejected) (use b1 in simp)
  then show ?thesis using WsError h b1 by (simp add: Let_def)
next
  case (WsClose i)
  then show "wire_inv (env s) \<Longrightarrow> ?thesis" by (simp add: wire_inv_set_ready)
next
  case (WsClosing i)
  then show "wire_inv (env s) \<Longrightarrow> ?thesis" by (simp add: wire_inv_set_ready)
next
  case (WsMessage i m)
  then show "wire_inv (env s) \<Longrightarrow> ?thesis" by (simp add: wire_inv_append onmessage_no_transmit)
next
  case (MicGranted sid rate)
  assume h: "wire_inv (env s)"
  have "wire_inv (snd (start_resume sid rate (audioCapture s) (env s)))" using h by (rule wire_inv_start_resume)
  then show ?thesis using MicGranted h
    by (auto split: prod.splits intro!: wire_inv_append)
next
  case MicDenied
  assume h: "wire_inv (env s)"
  have "wire_inv (env (start_rejected (s\<lparr>suspended := remove1 AwaitStart (suspended s)\<rparr>)))"
    by (rule wire_inv_start_rejected) (use h in simp)
  then show ?thesis using MicDenied h by simp
next
  case (AudioProcess n chunk)
  then show "wire_inv (env s) \<Longrightarrow> ?thesis" by (simp add: wire_inv_onChunk)
qed

lemma wire_inv_init: "wire_inv (env (init key))"
  by (simp add: init_def wire_inv_def ready_def)

lemma run_snoc: "run (es @ [e]) s = step e (run es s)"
  by (simp add: run_def)

lemma wire_inv_run: "wire_inv (env (run es (init key)))"
proof (induction es rule: rev_induct)
  case Nil
  show ?case by (simp add: run_def wire_inv_init)
next
  case (snoc e es)
  then show ?case by (simp add: run_snoc wire_inv_step)
qed

section \<open>The invariants of the handshake and of the client's handle\<close>

text \<open>
  Sockets are only ever created by \<open>connect()\<close>, and the client's \<open>socket\<close> field is only
  ever set by \<open>onopen\<close>; both facts are invariants of every run.
\<close>

lemma handshakes_log [simp]: "handshakes (log_action a b) = handshakes b"
  by (simp add: handshakes_def)

lemma handshakes_trace [simp]: "handshakes (b\<lparr>trace := t\<rparr>) = handshakes b"
  by (simp add: handshakes_def)

lemma handshakes_processors [simp]: "handshakes (b\<lparr>processors := t\<rparr>) = handshakes b"
  by (simp add: handshakes_def)

lemma handshakes_set_ready [simp]: "handshakes (set_ready i r b) = handshakes b"
  by (simp add: handshakes_def set_ready_def map_update list_update_same_conv)

lemma ready_ws_send: "ws_send i f b = Inr b' \<Longrightarrow> ready b' j = ready b j"
  by (cases "ready b i") (auto simp: ws_send_def)

lemma handshakes_ws_send: "ws_send i f b = Inr b' \<Longrightarrow> handshakes b' = handshakes b"
  by (cases "ready b i") (auto simp: ws_send_def)

lemma handshakes_ws_close [simp]: "handshakes (ws_close i b) = handshakes b"
  by (cases "ready b i") (auto simp: ws_close_def)

lemma handshakes_finalize [simp]: "handshakes (snd (finalizeAndClose c b)) = handshakes b"
  by (auto simp: finalizeAndClose_def Let_def split: option.splits sum.splits dest: handshakes_ws_send)

lemma apiKey_finalize [simp]: "apiKey (fst (finalizeAndClose c b)) = apiKey c"
  by (simp add: finalizeAndClose_def Let_def split: option.splits)

lemma handshakes_stop [simp]: "handshakes (snd (stop a b)) = handshakes b"
  by (simp add: stop_def Let_def disconnect_processor_def close_context_def split: option.splits)

lemma ready_stop [simp]: "ready (snd (stop a b)) i = ready b i"
  by (simp add: stop_def Let_def disconnect_processor_def close_context_def split: option.splits)

lemma handshakes_start [simp]: "handshakes (snd (start a b)) = handshakes b"
  by (simp add: start_def)

lemma ready_start [simp]: "ready (snd (start a b)) i = ready b i"
  by (simp add: start_def)

lemma handshakes_start_resume [simp]: "handshakes (snd (start_resume sid rate a b)) = handshakes b"
  by (simp add: start_resume_def Let_def)

lemma ready_start_resume [simp]: "ready (snd (start_resume sid rate a b)) i = ready b i"
  by (simp add: start_resume_def Let_def)

lemma handshakes_connect:
  "handshakes (snd (connect c b)) =
     (if isConnected c b then handshakes b else handshakes b @ [(connect_url, [''token'', apiKey c])])"
  by (simp add: connect_def Let_def handshakes_def)

lemma ready_connect_old: "ready b i \<noteq> CLOSED \<Longrightarrow> ready (snd (connect c b)) i = ready b i"
  by (auto simp: connect_def Let_def ready_def nth_append split: if_splits)


lemma begin_capture_keeps:
  "deepgram (begin_capture s) = deepgram s"
  "handshakes (env (begin_capture s)) = handshakes (env s)"
  "ready (env (begin_capture s)) i = ready (env s) i"
  by (auto simp: begin_capture_def start_def split: prod.splits)

lemma ready_in_range: "ready b i \<noteq> CLOSED \<Longrightarrow> i < length (sockets b)"
  by (auto simp: ready_def split: if_splits)

lemma ready_connecting_in_range: "ready b i = CONNECTING \<Longrightarrow> i < length (sockets b)"
  by (auto simp: ready_def split: if_splits)

lemma isConnected_trace [simp]: "isConnected c (b\<lparr>trace := t\<rparr>) = isConnected c b"
  by (simp add: isConnected_def split: option.splits)

lemma startPushToTalk_eq:
  "\<not> isHolding s \<Longrightarrow> startPushToTalk s =
     (let s1 = emit [ClearError, SetStatus Listening] (s\<lparr>isHolding := True\<rparr>)
      in if isConnected (deepgram s) (env s) then begin_capture s1
         else s1\<lparr>env := snd (connect (deepgram s) (env s1)),
                suspended := suspended s @ [AwaitConnect (length (sockets (env s)))]\<rparr>)"
  by (simp add: startPushToTalk_def Let_def connect_def emit_def)

lemma startPushToTalk_deepgram: "deepgram (startPushToTalk s) = deepgram s"
  by (cases "isHolding s") (simp_all add: startPushToTalk_eq Let_def begin_capture_keeps, simp add: startPushToTalk_def)

lemma startPushToTalk_ready:
  "ready (env s) i \<noteq> CLOSED \<Longrightarrow> ready (env (startPushToTalk s)) i = ready (env s) i"
  by (cases "isHolding s")
     (simp_all add: startPushToTalk_eq Let_def begin_capture_keeps ready_connect_old,
      simp add: startPushToTalk_def)

lemma startPushToTalk_handshakes:
  "set (handshakes (env (startPushToTalk s))) \<subseteq>
     insert (connect_url, [''token'', apiKey (deepgram s)]) (set (handshakes (env s)))"
proof (cases "isHolding s")
  case True
  then show ?thesis by (auto simp: startPushToTalk_def)
next
  case False
  then show ?thesis
    by (auto simp: startPushToTalk_eq Let_def begin_capture_keeps handshakes_connect)
qed

lemmas startPushToTalk_keeps = startPushToTalk_deepgram startPushToTalk_ready startPushToTalk_handshakes

lemma connect_rejected_keeps:
  "deepgram (connect_rejected s) = deepgram s"
  "handshakes (env (connect_rejected s)) = handshakes (env s)"
  "ready (env (connect_rejected s)) i = ready (env s) i"
  by (auto simp: connect_rejected_def)

lemma start_rejected_keeps:
  "apiKey (deepgram (start_rejected s)) = apiKey (deepgram s)"
  "socket (deepgram (start_rejected s)) = None"
  "handshakes (env (start_rejected s)) = handshakes (env s)"
proof -
  let ?s1 = "emit [ConsoleError ''Microphone error''] (s\<lparr>isHolding := False\<rparr>)"
  obtain c b where cb: "finalizeAndClose (deepgram ?s1) (env ?s1) = (c, b)" by force
  have c: "c = fst (finalizeAndClose (deepgram ?s1) (env ?s1))"
    and b: "b = snd (finalizeAndClose (deepgram ?s1) (env ?s1))" using cb by simp_all
  have e: "start_rejected s = emit [SetError, SetStatus Error] (?s1\<lparr>deepgram := c, env := b\<rparr>)"
    using cb by (simp add: start_rejected_def Let_def)
  show "apiKey (deepgram (start_rejected s)) = apiKey (deepgram s)"
    unfolding e by (simp add: c)
  show "socket (deepgram (start_rejected s)) = None"
    unfolding e by (simp add: c finalizeAndClose_socket)
  show "handshakes (env (start_rejected s)) = handshakes (env s)"
    unfolding e by (simp add: b)
qed

lemma stopPushToTalk_eq:
  "isHolding s \<Longrightarrow> stopPushToTalk s =
     emit [SetStatus Idle]
       (s\<lparr>isHolding := False, audioCapture := fst (stop (audioCapture s) (env s)),
          deepgram := fst (finalizeAndClose (deepgram s) (snd (stop (audioCapture s) (env s)))),
          env := snd (finalizeAndClose (deepgram s) (snd (stop (audioCapture s) (env s))))\<rparr>)"
  by (simp add: stopPushToTalk_def Let_def split: prod.splits)

lemma stopPushToTalk_apiKey: "apiKey (deepgram (stopPushToTalk s)) = apiKey (deepgram s)"
  by (cases "isHolding s") (simp_all add: stopPushToTalk_eq, simp add: stopPushToTalk_def)

lemma stopPushToTalk_socket: "isHolding s \<Longrightarrow> socket (deepgram (stopPushToTalk s)) = None"
  by (simp add: stopPushToTalk_eq finalizeAndClose_socket)

lemma stopPushToTalk_handshakes: "handshakes (env (stopPushToTalk s)) = handshakes (env s)"
  by (cases "isHolding s") (simp_all add: stopPushToTalk_eq, simp add: stopPushToTalk_def)

lemmas stopPushToTalk_keeps = stopPushToTalk_apiKey stopPushToTalk_socket stopPushToTalk_handshakes

lemma onChunk_keeps:
  "deepgram (onChunk chunk s) = deepgram s"
  "handshakes (env (onChunk chunk s)) = handshakes (env s)"
  "ready (env (onChunk chunk s)) i = ready (env s) i"
  by (auto simp: onChunk_def sendAudioChunk_def split: sum.splits option.splits if_splits
      dest: handshakes_ws_send ready_ws_send)

lemma deepgram_set_socket [simp]: "deepgram (set_socket x s) = (deepgram s)\<lparr>socket := x\<rparr>"
  by (simp add: set_socket_def)

lemma deepgram_in_env [simp]: "deepgram (in_env f s) = deepgram s"
  by (simp add: in_env_def)

lemma handshake_inv_step: "handshake_inv key s \<Longrightarrow> handshake_inv key (step e s)"
proof (cases e)
  case Activate
  assume "handshake_inv key s"
  then show ?thesis using Activate startPushToTalk_keeps(3)[of s]
    by (auto simp: handshake_inv_def startPushToTalk_deepgram)
next
  case Deactivate
  then show "handshake_inv key s \<Longrightarrow> ?thesis" by (simp add: handshake_inv_def stopPushToTalk_keeps)
next
  case (WsOpen i)
  then show "handshake_inv key s \<Longrightarrow> ?thesis" by (simp add: handshake_inv_def begin_capture_keeps Let_def)
next
  case (WsError i)
  then show "handshake_inv key s \<Longrightarrow> ?thesis" by (simp add: handshake_inv_def connect_rejected_keeps Let_def)
next
  case (WsClose i)
  then show "handshake_inv key s \<Longrightarrow> ?thesis" by (simp add: handshake_inv_def)
next
  case (WsClosing i)
  then show "handshake_inv key s \<Longrightarrow> ?thesis" by (simp add: handshake_inv_def)
next
  case (WsMessage i m)
  then show "handshake_inv key s \<Longrightarrow> ?thesis" by (simp add: handshake_inv_def)
next
  case (MicGranted sid rate)
  then show "handshake_inv key s \<Longrightarrow> ?thesis"
    by (simp add: handshake_inv_def start_resume_def Let_def)
next
  case MicDenied
  then show "handshake_inv key s \<Longrightarrow> ?thesis" by (simp add: handshake_inv_def start_rejected_keeps)
next
  case (AudioProcess n chunk)
  then show "handshake_inv key s \<Longrightarrow> ?thesis" by (simp add: handshake_inv_def onChunk_keeps)
qed

lemma handle_inv_step: "handle_inv s \<Longrightarrow> handle_inv (step e s)"
proof (cases e)
  case Activate
  assume "handle_inv s"
  then show ?thesis using Activate
    by (auto simp: handle_inv_def startPushToTalk_deepgram startPushToTalk_ready)
next
  case Deactivate
  assume h: "handle_inv s"
  show ?thesis
  proof (cases "isHolding s")
    case True
    then show ?thesis using Deactivate by (simp add: handle_inv_def stopPushToTalk_keeps(2))
  next
    case False
    then show ?thesis using Deactivate h by (simp add: stopPushToTalk_def)
  qed
next
  case (WsOpen i)
  then show "handle_inv s \<Longrightarrow> ?thesis"
    by (auto simp: handle_inv_def begin_capture_keeps Let_def ready_set_ready dest: ready_connecting_in_range)
next
  case (WsError i)
  then show "handle_inv s \<Longrightarrow> ?thesis" by (simp add: handle_inv_def connect_rejected_keeps Let_def)
next
  case (WsClose i)
  then show "handle_inv s \<Longrightarrow> ?thesis" by (simp add: handle_inv_def)
next
  case (WsClosing i)
  then show "handle_inv s \<Longrightarrow> ?thesis" by (auto simp: handle_inv_def ready_set_ready)
next
  case (WsMessage i m)
  then show "handle_inv s \<Longrightarrow> ?thesis" by (simp add: handle_inv_def)
next
  case (MicGranted sid rate)
  then show "handle_inv s \<Longrightarrow> ?thesis"
    by (simp add: handle_inv_def start_resume_def Let_def)
next
  case MicDenied
  then show "handle_inv s \<Longrightarrow> ?thesis" by (simp add: handle_inv_def start_rejected_keeps)
next
  case (AudioProcess n chunk)
  then show "handle_inv s \<Longrightarrow> ?thesis" by (simp add: handle_inv_def onChunk_keeps)
qed

lemma handshake_inv_run: "handshake_inv key (run es (init key))"
proof (induction es rule: rev_induct)
  case Nil
  show ?case by (simp add: run_def init_def handshake_inv_def handshakes_def)
next
  case (snoc e es)
  then show ?case by (simp add: run_snoc handshake_inv_step)
qed

lemma handle_inv_run: "handle_inv (run es (init key))"
proof (induction es rule: rev_induct)
  case Nil
  show ?case by (simp add: run_def init_def handle_inv_def)
next
  case (snoc e es)
  then show ?case by (simp add: run_snoc handle_inv_step)
qed

section \<open>Inbound messages\<close>

text \<open>The type and the first transcript of a well-formed message.\<close>

lemma message_type_str:
  "get_prop data ''type'' = Some (JStr ty) \<Longrightarrow> message_type data = Inr ty"
  by (cases data) (auto simp: message_type_def)

lemma message_type_absent:
  "data \<noteq> JNull \<Longrightarrow> get_prop data ''type'' = None \<Longrightarrow> message_type data = Inr []"
  by (cases data) (auto simp: message_type_def)

lemma first_transcript_arr:
  "get_prop data ''channel'' = Some ch \<Longrightarrow> get_prop ch ''alternatives'' = Some (JArr (alt # alts)) \<Longrightarrow>
   get_prop alt ''transcript'' = Some tr \<Longrightarrow> first_transcript data = Some tr"
  by (cases ch; cases alt; cases tr) (simp_all add: first_transcript_def)


section \<open>Evaluation on concrete runs\<close>

lemmas eval_defs = run_def init_def startPushToTalk_def stopPushToTalk_def begin_capture_def
  connect_def isConnected_def emit_def log_action_def stop_def start_def start_resume_def
  finalizeAndClose_def ws_send_def ws_close_def set_ready_def ready_def set_socket_def in_env_def
  Let_def disconnect_processor_def close_context_def connect_rejected_def start_rejected_def
  onChunk_def sendAudioChunk_def isActive_def

lemma connect_params_literal:
  "connect_params = [(''encoding'', ''linear16''), (''sample_rate'', ''16000''), (''channels'', ''1''),
      (''language'', ''en-US''), (''punctuate'', ''true''), (''interim_results'', ''true'')]"
  by (simp add: connect_params_def)

lemma show_nat_16000: "show_nat 16000 = ''16000''"
  by (simp add: show_nat.simps char_of_eq_iff)

lemma show_nat_48000: "show_nat 48000 = ''48000''"
  by (simp add: show_nat.simps char_of_eq_iff)

lemma connect_params_spec: "connect_params = spec_connect_params 16000"
  by (simp add: connect_params_literal spec_connect_params_def show_nat_16000)

lemma connect_url_literal:
  "connect_url = ''wss://api.deepgram.com/v1/listen?encoding=linear16&sample_rate=16000&channels=1&language=en-US&punctuate=true&interim_results=true''"
  by (simp add: connect_url_def url_toString_def connect_params_literal form_encode_def form_char_def)

lemma spec_url_48000:
  "url_toString ''wss://api.deepgram.com/v1/listen'' (spec_connect_params 48000)
    = ''wss://api.deepgram.com/v1/listen?encoding=linear16&sample_rate=48000&channels=1&language=en-US&punctuate=true&interim_results=true''"
  by (simp add: url_toString_def spec_connect_params_def show_nat_48000 form_encode_def form_char_def)

lemma encode_half: "float32ToLinear16 [Fin (1 / 2)] = Inr [255, 63]"
  by (simp add: float32ToLinear16_eq encode_sample_def scale_def clamp_def js_trunc_def)

text \<open>The state while the first connection is pending, and the state while streaming.\<close>

lemma run_connecting:
  "run [Activate] (init ''key'') =
     \<lparr>deepgram = \<lparr>apiKey = ''key'', socket = None\<rparr>,
      audioCapture = \<lparr>mediaStream = None, audioContext = None, sourceNode = None,
                      processorNode = None\<rparr>,
      isHolding = True,
      suspended = [AwaitConnect 0],
      env = \<lparr>sockets = [\<lparr>ws_url = connect_url, ws_protocols = [''token'', ''key''],
                           readyState = CONNECTING\<rparr>],
             processors = [],
             trace = [SetStatus Idle, ClearError, SetStatus Listening,
                      WsCreated 0 connect_url [''token'', ''key'']]\<rparr>\<rparr>"
  by (simp add: eval_defs)

lemma run_open:
  "run [Activate, WsOpen 0] (init ''key'') =
     \<lparr>deepgram = \<lparr>apiKey = ''key'', socket = Some 0\<rparr>,
      audioCapture = \<lparr>mediaStream = None, audioContext = None, sourceNode = None,
                      processorNode = None\<rparr>,
      isHolding = True,
      suspended = [AwaitStart],
      env = \<lparr>sockets = [\<lparr>ws_url = connect_url, ws_protocols = [''token'', ''key''],
                           readyState = OPEN\<rparr>],
             processors = [],
             trace = [SetStatus Idle, ClearError, SetStatus Listening,
                      WsCreated 0 connect_url [''token'', ''key''], GetUserMedia]\<rparr>\<rparr>"
  by (simp add: eval_defs)

lemma run_streaming:
  "run [Activate, WsOpen 0, MicGranted 7 48000] (init ''key'') =
     \<lparr>deepgram = \<lparr>apiKey = ''key'', socket = Some 0\<rparr>,
      audioCapture = \<lparr>mediaStream = Some 7,
                      audioContext = Some \<lparr>sampleRate = 48000, ctx_closed = False\<rparr>,
                      sourceNode = Some 7, processorNode = Some 0\<rparr>,
      isHolding = True,
      suspended = [],
      env = \<lparr>sockets = [\<lparr>ws_url = connect_url, ws_protocols = [''token'', ''key''],
                           readyState = OPEN\<rparr>],
             processors = [\<lparr>handler_set = True, node_connected = True\<rparr>],
             trace = [SetStatus Idle, ClearError, SetStatus Listening,
                      WsCreated 0 connect_url [''token'', ''key''], GetUserMedia,
                      SetStatus Listening]\<rparr>\<rparr>"
  by (simp add: eval_defs)


section \<open>Claims on DeepgramClient\<close>

text \<open>
  Claim C6. When the client is not connected (no socket, or a socket that is not open),
  \<open>sendAudioChunk\<close> returns normally and changes neither the client nor the environment:
  nothing is transmitted. When the client is connected, the encoded bytes of the block are
  transmitted as one binary frame on the client's socket, and nothing else changes.
\<close>

theorem sendAudioChunk_spec:
  "(\<not> isConnected c b \<longrightarrow> sendAudioChunk chunk c b = Inr (c, b)) \<and>
   (isConnected c b \<longrightarrow>
      (\<exists>i bytes. socket c = Some i \<and> float32ToLinear16 chunk = Inr bytes \<and>
         sendAudioChunk chunk c b = Inr (c, b\<lparr>trace := trace b @ [Transmit i (Binary bytes)]\<rparr>)))"
  by (auto simp: sendAudioChunk_def isConnected_def float32ToLinear16_eq ws_send_def log_action_def
      split: option.splits)

theorem sendAudioChunk_spec_witness:
  "\<not> isConnected (deepgram (init ''key'')) (env (init ''key'')) \<and>
   sendAudioChunk [Fin (1 / 2)] (deepgram (init ''key'')) (env (init ''key''))
     = Inr (deepgram (init ''key''), env (init ''key'')) \<and>
   isConnected (deepgram (run [Activate, WsOpen 0] (init ''key'')))
     (env (run [Activate, WsOpen 0] (init ''key''))) \<and>
   (\<exists>b'. sendAudioChunk [Fin (1 / 2)] (deepgram (run [Activate, WsOpen 0] (init ''key'')))
            (env (run [Activate, WsOpen 0] (init ''key'')))
          = Inr (deepgram (run [Activate, WsOpen 0] (init ''key'')), b')
      \<and> wire 0 (trace b') = [Binary [255, 63]])"
proof -
  let ?s0 = "init ''key''"
  let ?s1 = "run [Activate, WsOpen 0] (init ''key'')"
  have n0: "\<not> isConnected (deepgram ?s0) (env ?s0)" by (simp add: init_def isConnected_def)
  have c1: "isConnected (deepgram ?s1) (env ?s1)" by (simp add: run_open isConnected_def ready_def)
  have w0: "wire 0 (trace (env ?s1)) = []" by (simp add: run_open)
  have so: "socket (deepgram ?s1) = Some 0" by (simp add: run_open)
  have r0: "sendAudioChunk [Fin (1 / 2)] (deepgram ?s0) (env ?s0) = Inr (deepgram ?s0, env ?s0)"
    using conjunct1[OF sendAudioChunk_spec[of "deepgram ?s0" "env ?s0" "[Fin (1 / 2)]"]] n0
    by (rule mp)
  have "\<exists>i bytes. socket (deepgram ?s1) = Some i \<and> float32ToLinear16 [Fin (1 / 2)] = Inr bytes \<and>
         sendAudioChunk [Fin (1 / 2)] (deepgram ?s1) (env ?s1)
           = Inr (deepgram ?s1, (env ?s1)\<lparr>trace := trace (env ?s1) @ [Transmit i (Binary bytes)]\<rparr>)"
    using conjunct2[OF sendAudioChunk_spec[of "deepgram ?s1" "env ?s1" "[Fin (1 / 2)]"]] c1
    by (rule mp)
  then obtain i bytes where
     "socket (deepgram ?s1) = Some i" "float32ToLinear16 [Fin (1 / 2)] = Inr bytes"
     and r: "sendAudioChunk [Fin (1 / 2)] (deepgram ?s1) (env ?s1)
           = Inr (deepgram ?s1, (env ?s1)\<lparr>trace := trace (env ?s1) @ [Transmit i (Binary bytes)]\<rparr>)"
    by (elim exE conjE)
  then have i: "i = 0" and b: "bytes = [255, 63]" using so encode_half by simp_all
  have "wire 0 (trace ((env ?s1)\<lparr>trace := trace (env ?s1) @ [Transmit 0 (Binary [255, 63])]\<rparr>))
          = [Binary [255, 63]]"
    using w0 by (simp add: wire_append)
  with r i b have r1: "\<exists>b'. sendAudioChunk [Fin (1 / 2)] (deepgram ?s1) (env ?s1) = Inr (deepgram ?s1, b')
      \<and> wire 0 (trace b') = [Binary [255, 63]]" by simp
  from n0 r0 c1 r1 show ?thesis by (intro conjI)
qed

text \<open>
  Claim C8, the counterexample. While the handshake of the first \<open>connect()\<close> is still
  pending (the socket is connecting, the caller is suspended on it), a second call of
  \<open>connect()\<close> is not a no-op: it creates a second socket.
\<close>

theorem connect_while_connecting_counterexample:
  "ready (env (run [Activate] (init ''key''))) 0 = CONNECTING \<and>
   suspended (run [Activate] (init ''key'')) = [AwaitConnect 0] \<and>
   length (sockets (env (run [Activate] (init ''key'')))) = 1 \<and>
   fst (connect (deepgram (run [Activate] (init ''key''))) (env (run [Activate] (init ''key''))))
     = Waiting 1 \<and>
   length (sockets (snd (connect (deepgram (run [Activate] (init ''key'')))
                                 (env (run [Activate] (init ''key'')))))) = 2"
  by (simp add: run_connecting ready_def connect_def isConnected_def Let_def)

text \<open>
  Claim C8, as amended. Calling \<open>connect()\<close> while the client is connected (it holds a
  socket that is open) is a no-op: the promise is already resolved, no socket is created,
  and the environment is unchanged.
\<close>

theorem connect_when_streaming: "isConnected c b \<Longrightarrow> connect c b = (Resolved, b)"
  by (simp add: connect_def)

theorem connect_when_streaming_witness:
  "isConnected (deepgram (run [Activate, WsOpen 0] (init ''key'')))
     (env (run [Activate, WsOpen 0] (init ''key''))) \<and>
   connect (deepgram (run [Activate, WsOpen 0] (init ''key''))) (env (run [Activate, WsOpen 0] (init ''key'')))
     = (Resolved, env (run [Activate, WsOpen 0] (init ''key'')))"
proof -
  let ?s1 = "run [Activate, WsOpen 0] (init ''key'')"
  have c1: "isConnected (deepgram ?s1) (env ?s1)" by (simp add: run_open isConnected_def ready_def)
  from c1 connect_when_streaming[OF c1] show ?thesis by (rule conjI)
qed

text \<open>
  Claim C9, the counterexample. The audio context runs at 48000 Hz, and the handshake of
  the session that streams its audio does not carry that rate: it is the handshake for
  16000 Hz.
\<close>

theorem handshake_rate_counterexample:
  "audioContext (audioCapture (run [Activate, WsOpen 0, MicGranted 7 48000] (init ''key'')))
     = Some \<lparr>sampleRate = 48000, ctx_closed = False\<rparr> \<and>
   ws_url (sockets (env (run [Activate, WsOpen 0, MicGranted 7 48000] (init ''key''))) ! 0)
     \<noteq> url_toString ''wss://api.deepgram.com/v1/listen'' (spec_connect_params 48000) \<and>
   ws_url (sockets (env (run [Activate, WsOpen 0, MicGranted 7 48000] (init ''key''))) ! 0)
     = url_toString ''wss://api.deepgram.com/v1/listen'' (spec_connect_params 16000)"
  by (simp add: run_streaming spec_url_48000 connect_url_literal
        connect_params_spec[symmetric] connect_url_def[symmetric])

text \<open>
  Claim C9, as amended. Every connection opened in any run carries the parameters
  \<open>encoding=linear16\<close>, \<open>sample_rate=16000\<close>, \<open>channels=1\<close>, \<open>language=en-US\<close>,
  \<open>punctuate=true\<close> and \<open>interim_results=true\<close>, and presents the key in the protocol list.
  The sample rate is the constant 16000, whatever rate the audio device runs at.
\<close>

theorem handshake_parameters:
  "i < length (sockets (env (run es (init key)))) \<Longrightarrow>
   ws_url (sockets (env (run es (init key))) ! i)
     = url_toString ''wss://api.deepgram.com/v1/listen'' (spec_connect_params 16000) \<and>
   ws_protocols (sockets (env (run es (init key))) ! i) = [''token'', key]"
proof -
  assume h: "i < length (sockets (env (run es (init key))))"
  let ?b = "env (run es (init key))"
  have "handshakes ?b ! i \<in> set (handshakes ?b)" using h by (simp add: handshakes_def)
  then have "handshakes ?b ! i = (connect_url, [''token'', key])"
    using handshake_inv_run[of key es] by (simp add: handshake_inv_def)
  then show ?thesis using h
    by (simp add: handshakes_def connect_url_def connect_params_spec)
qed

theorem handshake_parameters_witness:
  "(0::nat) < length (sockets (env (run [Activate, WsOpen 0, MicGranted 7 48000] (init ''key'')))) \<and>
   ws_url (sockets (env (run [Activate, WsOpen 0, MicGranted 7 48000] (init ''key''))) ! 0)
     = url_toString ''wss://api.deepgram.com/v1/listen'' (spec_connect_params 16000) \<and>
   ws_protocols (sockets (env (run [Activate, WsOpen 0, MicGranted 7 48000] (init ''key''))) ! 0)
     = [''token'', ''key'']"
proof -
  have h: "(0::nat) < length (sockets (env (run [Activate, WsOpen 0, MicGranted 7 48000] (init ''key''))))"
    by (simp add: run_streaming)
  from h handshake_parameters[OF h] show ?thesis by (rule conjI)
qed

section \<open>Claims on AudioCapture\<close>

text \<open>
  Claim C10. In every state of the capture object, \<open>stop()\<close> returns (its model has no
  failing branch: each handle is used only when present, and a rejected \<open>close()\<close> is
  caught); afterwards all four handles are null and \<open>isActive\<close> is false; a second
  \<open>stop()\<close> changes nothing further; a following \<open>start()\<close> asks for the microphone
  again. When no handle is set, \<open>stop()\<close> touches nothing.
\<close>

theorem stop_spec:
  "(case stop a b of (a', b') \<Rightarrow>
      mediaStream a' = None \<and> audioContext a' = None \<and> sourceNode a' = None \<and> processorNode a' = None
      \<and> \<not> isActive a'
      \<and> stop a' b' = (a', log_action AudioStopReturned b')
      \<and> start a' b' = (AwaitingMicrophone, log_action GetUserMedia b'))
   \<and> (mediaStream a = None \<and> audioContext a = None \<and> sourceNode a = None \<and> processorNode a = None
        \<longrightarrow> stop a b = (a, log_action AudioStopReturned b))"
  by (simp add: stop_def Let_def isActive_def start_def)

theorem stop_spec_witness:
  "stop (audioCapture (init ''key'')) (env (init ''key''))
     = (audioCapture (init ''key''), log_action AudioStopReturned (env (init ''key'')))
   \<and> isActive (audioCapture (run [Activate, WsOpen 0, MicGranted 7 48000] (init ''key'')))
   \<and> \<not> isActive (fst (stop (audioCapture (run [Activate, WsOpen 0, MicGranted 7 48000] (init ''key'')))
                             (env (run [Activate, WsOpen 0, MicGranted 7 48000] (init ''key'')))))"
proof -
  let ?a = "audioCapture (init ''key'')"
  let ?s = "run [Activate, WsOpen 0, MicGranted 7 48000] (init ''key'')"
  have n: "mediaStream ?a = None \<and> audioContext ?a = None \<and> sourceNode ?a = None \<and> processorNode ?a = None"
    by (simp add: init_def)
  have r: "stop ?a (env (init ''key'')) = (?a, log_action AudioStopReturned (env (init ''key'')))"
    using conjunct2[OF stop_spec[of ?a "env (init ''key'')"]] n by (rule mp)
  have act: "isActive (audioCapture ?s)" by (simp add: run_streaming isActive_def)
  have "\<not> isActive (fst (stop (audioCapture ?s) (env ?s)))"
    using conjunct1[OF stop_spec[of "audioCapture ?s" "env ?s"]] by (simp add: case_prod_beta)
  with r act show ?thesis by (intro conjI)
qed

section \<open>Claim on inbound messages\<close>

text \<open>
  Claim C7. A parsed message whose \<open>type\<close> is a string equal to \<open>results\<close> up to letter
  case, and whose first alternative has a transcript string that is not empty after
  trimming, makes the handler call the transcript sink once, with the untrimmed
  transcript. A message whose \<open>type\<close> is any other string makes it call nothing, and
  the sink is called for no message at all whose type does not print as \<open>results\<close>. A frame
  that does not parse is logged and dropped. No message makes the handler call the error
  sink, and no message changes the client, the sockets, the holding flag, the suspended
  calls or the capture: the session goes on.
\<close>

theorem onmessage_spec:
  "(get_prop data ''type'' = Some (JStr ty) \<and> toLowerCase ty = ''results'' \<and>
    get_prop data ''channel'' = Some ch \<and> get_prop ch ''alternatives'' = Some (JArr (alt # alts)) \<and>
    get_prop alt ''transcript'' = Some (JStr t) \<and> trim t \<noteq> []
      \<longrightarrow> onmessage (Message data) = [OnTranscript t]) \<and>
   (get_prop data ''type'' = Some (JStr ty) \<and> toLowerCase ty \<noteq> ''results''
      \<longrightarrow> onmessage (Message data) = []) \<and>
   onmessage Malformed = [ConsoleError ''Failed to parse Deepgram message''] \<and>
   (\<forall>t. OnTranscript t \<in> set (onmessage m) \<longrightarrow>
        (\<exists>d ty'. m = Message d \<and> message_type d = Inr ty' \<and> toLowerCase ty' = ''results'')) \<and>
   (\<forall>a \<in> set (onmessage m). \<forall>msg. a \<noteq> OnError msg) \<and>
   deepgram (step (WsMessage i m) s) = deepgram s \<and>
   sockets (env (step (WsMessage i m) s)) = sockets (env s) \<and>
   isHolding (step (WsMessage i m) s) = isHolding s \<and>
   suspended (step (WsMessage i m) s) = suspended s \<and>
   audioCapture (step (WsMessage i m) s) = audioCapture s"
proof (intro conjI impI)
  assume h: "get_prop data ''type'' = Some (JStr ty) \<and> toLowerCase ty = ''results'' \<and>
    get_prop data ''channel'' = Some ch \<and> get_prop ch ''alternatives'' = Some (JArr (alt # alts)) \<and>
    get_prop alt ''transcript'' = Some (JStr t) \<and> trim t \<noteq> []"
  then have t0: "t \<noteq> []" by (auto simp: trim_def)
  from h have "first_transcript data = Some (JStr t)" by (auto intro: first_transcript_arr)
  with h t0 show "onmessage (Message data) = [OnTranscript t]"
    by (simp add: onmessage_def handle_message_def message_type_str)
next
  assume "get_prop data ''type'' = Some (JStr ty) \<and> toLowerCase ty \<noteq> ''results''"
  then show "onmessage (Message data) = []"
    by (simp add: onmessage_def handle_message_def message_type_str)
next
  show "onmessage Malformed = [ConsoleError ''Failed to parse Deepgram message'']"
    by (simp add: onmessage_def)
next
  show "\<forall>t. OnTranscript t \<in> set (onmessage m) \<longrightarrow>
        (\<exists>d ty'. m = Message d \<and> message_type d = Inr ty' \<and> toLowerCase ty' = ''results'')"
    by (auto simp: onmessage_def handle_message_def
        split: inbound.splits sum.splits option.splits if_splits)
next
  show "\<forall>a \<in> set (onmessage m). \<forall>msg. a \<noteq> OnError msg"
    by (auto simp: onmessage_def split: inbound.splits sum.splits option.splits)
qed (simp_all add: emit_def)

theorem onmessage_spec_witness:
  "onmessage (Message (JObj [(''type'', JStr ''Results''),
      (''channel'', JObj [(''alternatives'', JArr [JObj [(''transcript'', JStr '' hello '')]])])]))
     = [OnTranscript '' hello ''] \<and>
   onmessage (Message (JObj [(''type'', JStr ''Metadata''),
      (''channel'', JObj [(''alternatives'', JArr [JObj [(''transcript'', JStr ''hello'')]])])])) = [] \<and>
   onmessage Malformed \<noteq> [] \<and> (\<forall>msg. OnError msg \<notin> set (onmessage Malformed))"
proof -
  let ?alt = "JObj [(''transcript'', JStr '' hello '')]"
  let ?ch = "JObj [(''alternatives'', JArr [?alt])]"
  let ?d = "JObj [(''type'', JStr ''Results''), (''channel'', ?ch)]"
  let ?alt2 = "JObj [(''transcript'', JStr ''hello'')]"
  let ?ch2 = "JObj [(''alternatives'', JArr [?alt2])]"
  let ?d2 = "JObj [(''type'', JStr ''Metadata''), (''channel'', ?ch2)]"
  have a: "get_prop ?d ''type'' = Some (JStr ''Results'') \<and> toLowerCase ''Results'' = ''results'' \<and>
    get_prop ?d ''channel'' = Some ?ch \<and> get_prop ?ch ''alternatives'' = Some (JArr (?alt # [])) \<and>
    get_prop ?alt ''transcript'' = Some (JStr '' hello '') \<and> trim '' hello '' \<noteq> []"
    by (simp add: toLowerCase_def lower_char_def char_of_eq_iff trim_def is_space_def)
  have b: "get_prop ?d2 ''type'' = Some (JStr ''Metadata'') \<and> toLowerCase ''Metadata'' \<noteq> ''results''"
    by (simp add: toLowerCase_def lower_char_def char_of_eq_iff trim_def is_space_def)
  have r1: "onmessage (Message ?d) = [OnTranscript '' hello '']"
    using conjunct1[OF onmessage_spec[of ?d "''Results''" ?ch ?alt "[]" "'' hello ''" Malformed 0 "init []"]] a
    by (rule mp)
  have r2: "onmessage (Message ?d2) = []"
    using conjunct1[OF conjunct2[OF onmessage_spec[of ?d2 "''Metadata''" ?ch2 ?alt2 "[]" "''hello''" Malformed 0 "init []"]]] b
    by (rule mp)
  have r3: "onmessage Malformed \<noteq> [] \<and> (\<forall>msg. OnError msg \<notin> set (onmessage Malformed))"
    by (simp add: onmessage_def)
  from r1 r2 r3 show ?thesis by (intro conjI) simp_all
qed

section \<open>Claims on the coordinator\<close>

lemma processors_finalize [simp]: "processors (snd (finalizeAndClose c b)) = processors b"
  by (cases "socket c")
     (auto simp: finalizeAndClose_def Let_def ws_send_def ws_close_def set_ready_def
           split: ready_state.splits)

lemma stop_trace:
  "\<exists>pre. trace (snd (stop a b)) = trace b @ pre @ [AudioStopReturned] \<and> (\<forall>x \<in> set pre. \<not> is_transmit x)"
proof -
  let ?pre = "(case processorNode a of None \<Rightarrow> [] | Some n \<Rightarrow> [ProcessorDisconnected n])
            @ (case sourceNode a of None \<Rightarrow> [] | Some sid \<Rightarrow> [SourceDisconnected sid])
            @ (case mediaStream a of None \<Rightarrow> [] | Some sid \<Rightarrow> [TracksStopped sid])
            @ (case audioContext a of None \<Rightarrow> []
               | Some ctx \<Rightarrow> [if ctx_closed ctx then ConsoleError ''Error closing audio context''
                              else ContextClosed])"
  have "trace (snd (stop a b)) = trace b @ ?pre @ [AudioStopReturned]"
    by (simp add: stop_def Let_def disconnect_processor_def close_context_def split: option.splits)
  moreover have "\<forall>x \<in> set ?pre. \<not> is_transmit x"
    by (auto split: option.splits if_splits)
  ultimately show ?thesis by blast
qed

lemma finalize_trace_ext: "\<exists>post. trace (snd (finalizeAndClose c b)) = trace b @ post"
proof (cases "socket c")
  case None
  then show ?thesis by (simp add: finalizeAndClose_def)
next
  case (Some i)
  from finalizeAndClose_trace[OF Some, of b] show ?thesis by blast
qed

lemma stopPushToTalk_trace:
  assumes "isHolding s"
  shows "\<exists>pre post. trace (env (stopPushToTalk s)) = trace (env s) @ pre @ [AudioStopReturned] @ post
           \<and> (\<forall>x \<in> set pre. \<not> is_transmit x)"
proof -
  obtain pre where p: "trace (snd (stop (audioCapture s) (env s))) = trace (env s) @ pre @ [AudioStopReturned]"
    and np: "\<forall>x \<in> set pre. \<not> is_transmit x"
    using stop_trace[of "audioCapture s" "env s"] by blast
  obtain post where q: "trace (snd (finalizeAndClose (deepgram s) (snd (stop (audioCapture s) (env s)))))
      = trace (snd (stop (audioCapture s) (env s))) @ post"
    using finalize_trace_ext by blast
  have "trace (env (stopPushToTalk s)) = trace (env s) @ pre @ [AudioStopReturned] @ (post @ [SetStatus Idle])"
    using assms p q by (simp add: stopPushToTalk_eq)
  with np show ?thesis by blast
qed

lemma stop_processor_off:
  "processorNode a = Some n \<Longrightarrow> n < length (processors b) \<Longrightarrow>
   processors (snd (stop a b)) ! n = \<lparr>handler_set = False, node_connected = False\<rparr>"
  by (simp add: stop_def Let_def disconnect_processor_def close_context_def split: option.splits)

lemma stopPushToTalk_processor_off:
  assumes "isHolding s" "processorNode (audioCapture s) = Some n" "n < length (processors (env s))"
  shows "processors (env (stopPushToTalk s)) ! n = \<lparr>handler_set = False, node_connected = False\<rparr>"
  using assms by (simp add: stopPushToTalk_eq stop_processor_off)

lemma length_processors_stop [simp]: "length (processors (snd (stop a b))) = length (processors b)"
  by (simp add: stop_def Let_def disconnect_processor_def close_context_def split: option.splits)

lemma stopPushToTalk_silences:
  assumes "isHolding s" "processorNode (audioCapture s) = Some n"
  shows "step (AudioProcess n chunk) (stopPushToTalk s) = stopPushToTalk s"
proof (cases "n < length (processors (env s))")
  case True
  have "\<not> handler_set (processors (env (stopPushToTalk s)) ! n)"
    using assms True by (simp add: stopPushToTalk_processor_off)
  then show ?thesis by simp
next
  case False
  then have "\<not> n < length (processors (env (stopPushToTalk s)))"
    using assms by (simp add: stopPushToTalk_eq)
  then show ?thesis by simp
qed

lemma onChunk_no_socket: "socket (deepgram s) = None \<Longrightarrow> onChunk chunk s = s"
  by (simp add: onChunk_def sendAudioChunk_def)

lemma stop_inactive: "\<not> isActive (fst (stop a b))"
  by (simp add: stop_def Let_def isActive_def)

lemma stopPushToTalk_inactive: "isHolding s \<Longrightarrow> \<not> isActive (audioCapture (stopPushToTalk s))"
  by (simp add: stopPushToTalk_eq emit_def stop_inactive)

text \<open>
  Claim C2, as amended. In every call of \<open>stopPushToTalk\<close> while holding, what the call
  adds to the trace has the return of \<open>AudioCapture.stop()\<close> in it, and no frame is
  transmitted before that return: the Finalize message can only come after it. When the
  call returns the capture is inactive, the processor node it held has lost its handler
  and its connection and delivers nothing, and the client has no socket, so that a
  buffer handed to the send callback at that point is not sent. In every run and on
  every socket, nothing is transmitted after a Finalize message.
\<close>

theorem stop_before_finalize:
  "(isHolding s \<longrightarrow>
      (\<exists>pre post. trace (env (stopPushToTalk s)) = trace (env s) @ pre @ [AudioStopReturned] @ post
           \<and> (\<forall>x \<in> set pre. \<not> is_transmit x)) \<and>
      \<not> isActive (audioCapture (stopPushToTalk s)) \<and>
      (\<forall>n. processorNode (audioCapture s) = Some n \<and> n < length (processors (env s)) \<longrightarrow>
           processors (env (stopPushToTalk s)) ! n = \<lparr>handler_set = False, node_connected = False\<rparr>) \<and>
      (\<forall>n chunk. processorNode (audioCapture s) = Some n \<longrightarrow>
           step (AudioProcess n chunk) (stopPushToTalk s) = stopPushToTalk s) \<and>
      socket (deepgram (stopPushToTalk s)) = None \<and>
      (\<forall>chunk. onChunk chunk (stopPushToTalk s) = stopPushToTalk s)) \<and>
   finalize_is_last (wire i (trace (env (run es (init key)))))"
proof (intro conjI impI allI)
  show "finalize_is_last (wire i (trace (env (run es (init key)))))"
    using wire_inv_run[of es key] by (simp add: wire_inv_def)
next
  assume "isHolding s"
  then show "\<exists>pre post. trace (env (stopPushToTalk s)) = trace (env s) @ pre @ [AudioStopReturned] @ post
           \<and> (\<forall>x \<in> set pre. \<not> is_transmit x)"
    by (rule stopPushToTalk_trace)
next
  assume "isHolding s"
  then show "\<not> isActive (audioCapture (stopPushToTalk s))"
    by (rule stopPushToTalk_inactive)
next
  fix n
  assume "isHolding s" "processorNode (audioCapture s) = Some n \<and> n < length (processors (env s))"
  then show "processors (env (stopPushToTalk s)) ! n = \<lparr>handler_set = False, node_connected = False\<rparr>"
    by (simp add: stopPushToTalk_processor_off)
next
  fix n chunk
  assume "isHolding s" "processorNode (audioCapture s) = Some n"
  then show "step (AudioProcess n chunk) (stopPushToTalk s) = stopPushToTalk s"
    by (rule stopPushToTalk_silences)
next
  assume "isHolding s"
  then show "socket (deepgram (stopPushToTalk s)) = None" by (rule stopPushToTalk_socket)
next
  fix chunk
  assume "isHolding s"
  then have "socket (deepgram (stopPushToTalk s)) = None" by (rule stopPushToTalk_socket)
  then show "onChunk chunk (stopPushToTalk s) = stopPushToTalk s" by (rule onChunk_no_socket)
qed

lemma run_append: "run (es @ es') s = run es' (run es s)"
  by (simp add: run_def)

lemma run_after_block:
  "run [Activate, WsOpen 0, MicGranted 7 48000, AudioProcess 0 [Fin (1 / 2)]] (init ''key'') =
     \<lparr>deepgram = \<lparr>apiKey = ''key'', socket = Some 0\<rparr>,
      audioCapture = \<lparr>mediaStream = Some 7,
                      audioContext = Some \<lparr>sampleRate = 48000, ctx_closed = False\<rparr>,
                      sourceNode = Some 7, processorNode = Some 0\<rparr>,
      isHolding = True,
      suspended = [],
      env = \<lparr>sockets = [\<lparr>ws_url = connect_url, ws_protocols = [''token'', ''key''],
                           readyState = OPEN\<rparr>],
             processors = [\<lparr>handler_set = True, node_connected = True\<rparr>],
             trace = [SetStatus Idle, ClearError, SetStatus Listening,
                      WsCreated 0 connect_url [''token'', ''key''], GetUserMedia,
                      SetStatus Listening, Transmit 0 (Binary [255, 63])]\<rparr>\<rparr>"
proof -
  have "run [Activate, WsOpen 0, MicGranted 7 48000, AudioProcess 0 [Fin (1 / 2)]] (init ''key'')
        = step (AudioProcess 0 [Fin (1 / 2)]) (run [Activate, WsOpen 0, MicGranted 7 48000] (init ''key''))"
    using run_snoc[of "[Activate, WsOpen 0, MicGranted 7 48000]"] by simp
  then show ?thesis
    by (simp add: run_streaming onChunk_def sendAudioChunk_def isConnected_def ready_def
          encode_half ws_send_def log_action_def)
qed

lemma trace_after_release:
  "trace (env (run [Activate, WsOpen 0, MicGranted 7 48000, AudioProcess 0 [Fin (1 / 2)], Deactivate]
                 (init ''key''))) =
     [SetStatus Idle, ClearError, SetStatus Listening,
      WsCreated 0 connect_url [''token'', ''key''], GetUserMedia,
      SetStatus Listening, Transmit 0 (Binary [255, 63]),
      ProcessorDisconnected 0, SourceDisconnected 7, TracksStopped 7, ContextClosed,
      AudioStopReturned, Transmit 0 (TextFrame finalize_message), CloseCalled 0, SetStatus Idle]"
proof -
  have "run [Activate, WsOpen 0, MicGranted 7 48000, AudioProcess 0 [Fin (1 / 2)], Deactivate] (init ''key'')
        = step Deactivate (run [Activate, WsOpen 0, MicGranted 7 48000, AudioProcess 0 [Fin (1 / 2)]] (init ''key''))"
    using run_snoc[of "[Activate, WsOpen 0, MicGranted 7 48000, AudioProcess 0 [Fin (1 / 2)]]"] by simp
  then show ?thesis
    by (simp add: run_after_block stopPushToTalk_def stop_def finalizeAndClose_def Let_def
          disconnect_processor_def close_context_def ws_send_def ws_close_def ready_def set_ready_def
          log_action_def emit_def)
qed

theorem stop_before_finalize_witness:
  "isHolding (run [Activate, WsOpen 0, MicGranted 7 48000, AudioProcess 0 [Fin (1 / 2)]] (init ''key'')) \<and>
   processorNode (audioCapture (run [Activate, WsOpen 0, MicGranted 7 48000, AudioProcess 0 [Fin (1 / 2)]]
                                 (init ''key''))) = Some 0 \<and>
   (0::nat) < length (processors (env (run [Activate, WsOpen 0, MicGranted 7 48000,
                                            AudioProcess 0 [Fin (1 / 2)]] (init ''key'')))) \<and>
   processors (env (run [Activate, WsOpen 0, MicGranted 7 48000, AudioProcess 0 [Fin (1 / 2)]]
                     (init ''key''))) ! 0 = \<lparr>handler_set = True, node_connected = True\<rparr> \<and>
   processors (env (stopPushToTalk (run [Activate, WsOpen 0, MicGranted 7 48000,
                                         AudioProcess 0 [Fin (1 / 2)]] (init ''key'')))) ! 0
     = \<lparr>handler_set = False, node_connected = False\<rparr> \<and>
   step (AudioProcess 0 [Fin (1 / 4)])
        (stopPushToTalk (run [Activate, WsOpen 0, MicGranted 7 48000, AudioProcess 0 [Fin (1 / 2)]] (init ''key'')))
     = stopPushToTalk (run [Activate, WsOpen 0, MicGranted 7 48000, AudioProcess 0 [Fin (1 / 2)]] (init ''key'')) \<and>
   wire 0 (trace (env (run [Activate, WsOpen 0, MicGranted 7 48000, AudioProcess 0 [Fin (1 / 2)], Deactivate]
                        (init ''key''))))
     = [Binary [255, 63], TextFrame finalize_message] \<and>
   finalize_is_last [Binary [255, 63], TextFrame finalize_message]"
proof -
  let ?s = "run [Activate, WsOpen 0, MicGranted 7 48000, AudioProcess 0 [Fin (1 / 2)]] (init ''key'')"
  let ?es = "[Activate, WsOpen 0, MicGranted 7 48000, AudioProcess 0 [Fin (1 / 2)], Deactivate]"
  note t = stop_before_finalize[of ?s 0 ?es "''key''"]
  have h: "isHolding ?s" by (simp add: run_after_block)
  have p: "processorNode (audioCapture ?s) = Some 0" by (simp add: run_after_block)
  have l: "(0::nat) < length (processors (env ?s))" by (simp add: run_after_block)
  have on: "processors (env ?s) ! 0 = \<lparr>handler_set = True, node_connected = True\<rparr>"
    by (simp add: run_after_block)
  note c = mp[OF conjunct1[OF t] h]
  note a = conjunct1[OF conjunct2[OF conjunct2[OF c]]]
  note b = conjunct1[OF conjunct2[OF conjunct2[OF conjunct2[OF c]]]]
  have off: "processors (env (stopPushToTalk ?s)) ! 0 = \<lparr>handler_set = False, node_connected = False\<rparr>"
    by (rule a[rule_format, OF conjI[OF p l]])
  have q: "step (AudioProcess 0 [Fin (1 / 4)]) (stopPushToTalk ?s) = stopPushToTalk ?s"
    by (rule b[rule_format, OF p])
  have w: "wire 0 (trace (env (run ?es (init ''key'')))) = [Binary [255, 63], TextFrame finalize_message]"
    by (simp add: trace_after_release)
  have "finalize_is_last (wire 0 (trace (env (run ?es (init ''key'')))))"
    using conjunct2[OF t] .
  then have f: "finalize_is_last [Binary [255, 63], TextFrame finalize_message]"
    by (simp only: w)
  from h p l on off q w f show ?thesis by (intro conjI)
qed

text \<open>
  Claim C2, the counterexample. The return of \<open>stop()\<close> does not end emission and sending
  for good. Press and release during the handshake: the release is a deactivation while
  holding, \<open>stop()\<close> returns, and the suspended \<open>startPushToTalk\<close> goes on when the socket
  opens; it starts the capture, whose buffer is then transmitted. Press, open, release
  while the microphone is still being asked for: the suspended \<open>start()\<close> goes on after
  the release and leaves a capture that is active and delivers buffers.
\<close>

theorem audio_after_stop_counterexample:
  "isHolding (run [Activate] (init ''key'')) \<and>
   trace (env (run [Activate, Deactivate, WsOpen 0, MicGranted 7 16000, AudioProcess 0 [Fin (1 / 2)]]
                 (init ''key'')))
     = [SetStatus Idle, ClearError, SetStatus Listening,
        WsCreated 0 connect_url [''token'', ''key''],
        AudioStopReturned, SetStatus Idle, GetUserMedia, SetStatus Listening,
        Transmit 0 (Binary [255, 63])] \<and>
   \<not> isHolding (run [Activate, Deactivate, WsOpen 0, MicGranted 7 16000, AudioProcess 0 [Fin (1 / 2)]]
                   (init ''key'')) \<and>
   isHolding (run [Activate, WsOpen 0] (init ''key'')) \<and>
   \<not> isHolding (run [Activate, WsOpen 0, Deactivate, MicGranted 7 16000] (init ''key'')) \<and>
   isActive (audioCapture (run [Activate, WsOpen 0, Deactivate, MicGranted 7 16000] (init ''key''))) \<and>
   processors (env (run [Activate, WsOpen 0, Deactivate, MicGranted 7 16000] (init ''key'')))
     = [\<lparr>handler_set = True, node_connected = True\<rparr>]"
  by (simp add: eval_defs encode_half)

section \<open>Claim on finalizeAndClose\<close>

text \<open>
  Claim C5. Without a socket \<open>finalizeAndClose\<close> does nothing, and after any call the
  client has no socket, so a second call does nothing. On a client with a socket the
  socket is closing or closed afterwards, also when the Finalize message could not be
  sent: on an open socket the call transmits Finalize and then closes; on a socket where
  \<open>send\<close> raises, the error is logged and the socket is closed all the same. In every
  run, each socket carries at most one Finalize message, and every Finalize message is
  followed at once by the close of its socket.
\<close>

theorem finalizeAndClose_spec:
  "(socket c = None \<longrightarrow> finalizeAndClose c b = (c, b)) \<and>
   socket (fst (finalizeAndClose c b)) = None \<and>
   finalizeAndClose (fst (finalizeAndClose c b)) (snd (finalizeAndClose c b)) = finalizeAndClose c b \<and>
   (\<forall>i. socket c = Some i \<longrightarrow>
        ready (snd (finalizeAndClose c b)) i = CLOSING \<or> ready (snd (finalizeAndClose c b)) i = CLOSED) \<and>
   (\<forall>i. socket c = Some i \<and> ready b i = OPEN \<longrightarrow>
        trace (snd (finalizeAndClose c b))
          = trace b @ [Transmit i (TextFrame finalize_message), CloseCalled i]) \<and>
   (\<forall>i. socket c = Some i \<and> ready b i = CONNECTING \<longrightarrow>
        ready (snd (finalizeAndClose c b)) i = CLOSING \<and>
        trace (snd (finalizeAndClose c b))
          = trace b @ [ConsoleError ''Error sending Finalize message'', CloseCalled i]) \<and>
   count_list (wire j (trace (env (run es (init key))))) (TextFrame finalize_message) \<le> 1 \<and>
   finalize_then_close j (trace (env (run es (init key))))"
proof (intro conjI allI impI)
  have "finalize_is_last (wire j (trace (env (run es (init key)))))"
    using wire_inv_run[of es key] by (simp add: wire_inv_def)
  then show "count_list (wire j (trace (env (run es (init key))))) (TextFrame finalize_message) \<le> 1"
    by (rule finalize_is_last_count)
  show "finalize_then_close j (trace (env (run es (init key))))"
    using wire_inv_run[of es key] by (simp add: wire_inv_def)
  show "socket (fst (finalizeAndClose c b)) = None" by (rule finalizeAndClose_socket)
  show "finalizeAndClose (fst (finalizeAndClose c b)) (snd (finalizeAndClose c b)) = finalizeAndClose c b"
    by (rule finalizeAndClose_idem)
next
  assume "socket c = None"
  then show "finalizeAndClose c b = (c, b)" by (rule finalizeAndClose_None)
next
  fix i assume "socket c = Some i"
  then show "ready (snd (finalizeAndClose c b)) i = CLOSING \<or> ready (snd (finalizeAndClose c b)) i = CLOSED"
    by (rule finalizeAndClose_ready)
next
  fix i assume "socket c = Some i \<and> ready b i = OPEN"
  then show "trace (snd (finalizeAndClose c b))
          = trace b @ [Transmit i (TextFrame finalize_message), CloseCalled i]"
    by (simp add: finalizeAndClose_trace)
next
  fix i assume h: "socket c = Some i \<and> ready b i = CONNECTING"
  then show "ready (snd (finalizeAndClose c b)) i = CLOSING"
    by (simp add: finalizeAndClose_def Let_def ws_send_def ready_ws_close)
  from h show "trace (snd (finalizeAndClose c b))
          = trace b @ [ConsoleError ''Error sending Finalize message'', CloseCalled i]"
    by (simp add: finalizeAndClose_trace)
qed

theorem finalizeAndClose_spec_witness:
  "socket (deepgram (init ''key'')) = None \<and>
   finalizeAndClose (deepgram (init ''key'')) (env (init ''key'')) = (deepgram (init ''key''), env (init ''key'')) \<and>
   socket (deepgram (run [Activate, WsOpen 0] (init ''key''))) = Some 0 \<and>
   ready (env (run [Activate, WsOpen 0] (init ''key''))) 0 = OPEN \<and>
   trace (snd (finalizeAndClose (deepgram (run [Activate, WsOpen 0] (init ''key'')))
                                (env (run [Activate, WsOpen 0] (init ''key'')))))
     = trace (env (run [Activate, WsOpen 0] (init ''key'')))
         @ [Transmit 0 (TextFrame finalize_message), CloseCalled 0] \<and>
   ready (env (run [Activate] (init ''key''))) 0 = CONNECTING \<and>
   ready (snd (finalizeAndClose \<lparr>apiKey = ''key'', socket = Some 0\<rparr> (env (run [Activate] (init ''key''))))) 0
     = CLOSING \<and>
   finalize_then_close 0
     (trace (env (run [Activate, WsOpen 0, MicGranted 7 48000, AudioProcess 0 [Fin (1 / 2)], Deactivate]
                   (init ''key'')))) \<and>
   count_list (wire 0 (trace (env (run [Activate, WsOpen 0, MicGranted 7 48000,
                                         AudioProcess 0 [Fin (1 / 2)], Deactivate] (init ''key'')))))
     (TextFrame finalize_message) = 1"
proof -
  let ?s0 = "init ''key''"
  let ?s1 = "run [Activate, WsOpen 0] (init ''key'')"
  let ?sc = "run [Activate] (init ''key'')"
  let ?c = "\<lparr>apiKey = ''key'', socket = Some 0\<rparr>"
  let ?es = "[Activate, WsOpen 0, MicGranted 7 48000, AudioProcess 0 [Fin (1 / 2)], Deactivate]"
  note t0 = finalizeAndClose_spec[of "deepgram ?s0" "env ?s0" 0 ?es "''key''"]
  note t1 = finalizeAndClose_spec[of "deepgram ?s1" "env ?s1" 0 ?es "''key''"]
  note tc = finalizeAndClose_spec[of ?c "env ?sc" 0 ?es "''key''"]
  have a0: "socket (deepgram ?s0) = None" by (simp add: init_def)
  have r0: "finalizeAndClose (deepgram ?s0) (env ?s0) = (deepgram ?s0, env ?s0)"
    using conjunct1[OF t0] a0 by (rule mp)
  have a1: "socket (deepgram ?s1) = Some 0" by (simp add: run_open)
  have o1: "ready (env ?s1) 0 = OPEN" by (simp add: run_open ready_def)
  from t1 have "\<forall>i. socket (deepgram ?s1) = Some i \<and> ready (env ?s1) i = OPEN \<longrightarrow>
        trace (snd (finalizeAndClose (deepgram ?s1) (env ?s1)))
          = trace (env ?s1) @ [Transmit i (TextFrame finalize_message), CloseCalled i]"
    by (elim conjE)
  with a1 o1 have r1: "trace (snd (finalizeAndClose (deepgram ?s1) (env ?s1)))
          = trace (env ?s1) @ [Transmit 0 (TextFrame finalize_message), CloseCalled 0]"
    by (elim allE impE) (intro conjI, assumption+)
  have ac: "ready (env ?sc) 0 = CONNECTING" by (simp add: run_connecting ready_def)
  from tc have "\<forall>i. socket ?c = Some i \<and> ready (env ?sc) i = CONNECTING \<longrightarrow>
        ready (snd (finalizeAndClose ?c (env ?sc))) i = CLOSING \<and>
        trace (snd (finalizeAndClose ?c (env ?sc)))
          = trace (env ?sc) @ [ConsoleError ''Error sending Finalize message'', CloseCalled i]"
    by (elim conjE)
  with ac have rc: "ready (snd (finalizeAndClose ?c (env ?sc))) 0 = CLOSING"
    by (elim allE[of _ 0] impE) simp_all
  from t1 have ft: "finalize_then_close 0 (trace (env (run ?es (init ''key''))))"
    by (elim conjE)
  have cnt: "count_list (wire 0 (trace (env (run ?es (init ''key''))))) (TextFrame finalize_message) = 1"
    by (simp add: trace_after_release)
  from a0 r0 a1 o1 r1 ac rc ft cnt show ?thesis by (intro conjI)
qed

section \<open>Claim on the serialisation of sessions\<close>

lemma sockets_begin_capture [simp]: "sockets (env (begin_capture s)) = sockets (env s)"
  by (auto simp: begin_capture_def start_def emit_def split: prod.splits)

lemma startPushToTalk_sockets:
  "sockets (env (startPushToTalk s)) = sockets (env s) \<or>
     (\<not> isHolding s \<and> \<not> isConnected (deepgram s) (env s) \<and>
      sockets (env (startPushToTalk s)) = sockets (env s) @
        [\<lparr>ws_url = connect_url, ws_protocols = [''token'', apiKey (deepgram s)],
          readyState = CONNECTING\<rparr>])"
proof (cases "isHolding s")
  case True
  then show ?thesis by (simp add: startPushToTalk_def)
next
  case False
  then show ?thesis
    by (cases "isConnected (deepgram s) (env s)")
       (simp_all add: startPushToTalk_eq Let_def connect_def)
qed

lemma stopPushToTalk_closes:
  assumes "isHolding s" "socket (deepgram s) = Some i"
  shows "ready (env (stopPushToTalk s)) i = CLOSING \<or> ready (env (stopPushToTalk s)) i = CLOSED"
  using assms finalizeAndClose_ready[of "deepgram s" i "snd (stop (audioCapture s) (env s))"]
  by (simp add: stopPushToTalk_eq)

text \<open>
  Claim C1, the counterexample. After press, release during the handshake, press, two
  sessions are connecting at once; and after press, open, release, press, the second
  session is connecting while the first is still closing. In neither case has the
  earlier session reached Closed when the later one is begun.
\<close>

theorem one_session_counterexample:
  "\<not> live_sessions (env (run [Activate, Deactivate, Activate] (init ''key''))) \<le> 1 \<and>
   map readyState (sockets (env (run [Activate, Deactivate, Activate] (init ''key''))))
     = [CONNECTING, CONNECTING] \<and>
   \<not> live_sessions (env (run [Activate, WsOpen 0, Deactivate, Activate] (init ''key''))) \<le> 1 \<and>
   map readyState (sockets (env (run [Activate, WsOpen 0, Deactivate, Activate] (init ''key''))))
     = [CLOSING, CONNECTING]"
  by (simp add: eval_defs live_sessions_def)

text \<open>
  Claim C1, as amended. The coordinator serialises by the holding flag alone.
  \<open>startPushToTalk\<close> while holding changes nothing; otherwise it creates at most one
  socket, and only when the client is not connected. \<open>stopPushToTalk\<close> while holding
  leaves the client without a socket, and the socket it held is closing or closed when
  the call returns. In every run the client's socket, when it has one, has completed its
  handshake and has not reached Closed. The coordinator does not wait for an earlier
  session to reach Closed.
\<close>

theorem coordinator_guards:
  "(isHolding s \<longrightarrow> startPushToTalk s = s) \<and>
   (sockets (env (startPushToTalk s)) = sockets (env s) \<or>
     (\<not> isHolding s \<and> \<not> isConnected (deepgram s) (env s) \<and>
      sockets (env (startPushToTalk s)) = sockets (env s) @
        [\<lparr>ws_url = connect_url, ws_protocols = [''token'', apiKey (deepgram s)],
          readyState = CONNECTING\<rparr>])) \<and>
   (isHolding s \<longrightarrow> socket (deepgram (stopPushToTalk s)) = None \<and>
      (\<forall>i. socket (deepgram s) = Some i \<longrightarrow>
           ready (env (stopPushToTalk s)) i = CLOSING \<or> ready (env (stopPushToTalk s)) i = CLOSED)) \<and>
   (\<forall>i. socket (deepgram (run es (init key))) = Some i \<longrightarrow>
        ready (env (run es (init key))) i = OPEN \<or> ready (env (run es (init key))) i = CLOSING)"
proof (intro conjI impI allI)
  assume "isHolding s"
  then show "startPushToTalk s = s" by (simp add: startPushToTalk_def)
next
  show "sockets (env (startPushToTalk s)) = sockets (env s) \<or>
     (\<not> isHolding s \<and> \<not> isConnected (deepgram s) (env s) \<and>
      sockets (env (startPushToTalk s)) = sockets (env s) @
        [\<lparr>ws_url = connect_url, ws_protocols = [''token'', apiKey (deepgram s)],
          readyState = CONNECTING\<rparr>])"
    by (rule startPushToTalk_sockets)
next
  assume "isHolding s"
  then show "socket (deepgram (stopPushToTalk s)) = None" by (rule stopPushToTalk_socket)
next
  fix i assume "isHolding s" "socket (deepgram s) = Some i"
  then show "ready (env (stopPushToTalk s)) i = CLOSING \<or> ready (env (stopPushToTalk s)) i = CLOSED"
    by (rule stopPushToTalk_closes)
next
  fix i assume "socket (deepgram (run es (init key))) = Some i"
  then show "ready (env (run es (init key))) i = OPEN \<or> ready (env (run es (init key))) i = CLOSING"
    using handle_inv_run[of es key] by (simp add: handle_inv_def)
qed

theorem coordinator_guards_witness:
  "isHolding (run [Activate, WsOpen 0] (init ''key'')) \<and>
   startPushToTalk (run [Activate, WsOpen 0] (init ''key'')) = run [Activate, WsOpen 0] (init ''key'') \<and>
   socket (deepgram (run [Activate, WsOpen 0] (init ''key''))) = Some 0 \<and>
   socket (deepgram (stopPushToTalk (run [Activate, WsOpen 0] (init ''key'')))) = None \<and>
   (ready (env (stopPushToTalk (run [Activate, WsOpen 0] (init ''key'')))) 0 = CLOSING \<or>
    ready (env (stopPushToTalk (run [Activate, WsOpen 0] (init ''key'')))) 0 = CLOSED) \<and>
   (ready (env (run [Activate, WsOpen 0] (init ''key''))) 0 = OPEN \<or>
    ready (env (run [Activate, WsOpen 0] (init ''key''))) 0 = CLOSING)"
proof -
  let ?s = "run [Activate, WsOpen 0] (init ''key'')"
  note t = coordinator_guards[of ?s "[Activate, WsOpen 0]" "''key''"]
  have h: "isHolding ?s" by (simp add: run_open)
  have a: "socket (deepgram ?s) = Some 0" by (simp add: run_open)
  have r1: "startPushToTalk ?s = ?s" using conjunct1[OF t] h by (rule mp)
  from t have "isHolding ?s \<longrightarrow> socket (deepgram (stopPushToTalk ?s)) = None \<and>
      (\<forall>i. socket (deepgram ?s) = Some i \<longrightarrow>
           ready (env (stopPushToTalk ?s)) i = CLOSING \<or> ready (env (stopPushToTalk ?s)) i = CLOSED)"
    by (elim conjE)
  with h have r2: "socket (deepgram (stopPushToTalk ?s)) = None"
    and r3a: "\<forall>i. socket (deepgram ?s) = Some i \<longrightarrow>
           ready (env (stopPushToTalk ?s)) i = CLOSING \<or> ready (env (stopPushToTalk ?s)) i = CLOSED"
    by simp_all
  from r3a a have r3: "ready (env (stopPushToTalk ?s)) 0 = CLOSING \<or> ready (env (stopPushToTalk ?s)) 0 = CLOSED"
    by (elim allE[of _ 0] impE) assumption+
  from t have "\<forall>i. socket (deepgram ?s) = Some i \<longrightarrow>
        ready (env ?s) i = OPEN \<or> ready (env ?s) i = CLOSING"
    by (elim conjE)
  with a have r4: "ready (env ?s) 0 = OPEN \<or> ready (env ?s) 0 = CLOSING"
    by (elim allE[of _ 0] impE) assumption+
  from h r1 a r2 r3 r4 show ?thesis by (intro conjI)
qed

end
